theory Spec2Isabelle
  imports Main "HOL-Library.Word"
begin

section \<open>The command-line driver of Cppcheck (cli/cppcheckexecutor.cpp)\<close>

text \<open>
  The theory embeds \<^verbatim>\<open>CppCheckExecutor\<close>: the preparation of the file set
  (\<^verbatim>\<open>parseFromArgs\<close>), the dispatch over the files (\<^verbatim>\<open>check_internal\<close>), the
  diagnostic sink (\<^verbatim>\<open>reportErr\<close>, \<^verbatim>\<open>reportOut\<close>, \<^verbatim>\<open>reportInfo\<close>,
  \<^verbatim>\<open>reportStatus\<close>, \<^verbatim>\<open>reportProgress\<close>) and the Unix signal handler with its call-stack
  printer. Classes that live in other files of the program (the command-line parser, the
  analysis engine, the path and file helpers, the thread executor, the renderers of
  \<^verbatim>\<open>ErrorMessage\<close>) and the constants of the C headers are parameters of the model.
\<close>

subsection \<open>Numbers and text\<close>

type_synonym size_t = "64 word"
type_synonym unsigned_int = "32 word"

text \<open>\<^verbatim>\<open>std::endl\<close> writes a newline; every \<^verbatim>\<open><<\<close> statement of the source is one chunk
  of the stream it writes to.\<close>

definition endl :: string where
  "endl = [CHR 0x0A]"

text \<open>Decimal rendering, as \<^verbatim>\<open>operator<<\<close> and \<^verbatim>\<open>%d\<close> do it.\<close>

fun dec :: "nat \<Rightarrow> string" where
  "dec n = (if n < 10 then [''0123456789'' ! n] else dec (n div 10) @ [''0123456789'' ! (n mod 10)])"

declare dec.simps [simp del]

definition dec_int :: "int \<Rightarrow> string" where
  "dec_int i = (if i < 0 then CHR ''-'' # dec (nat (- i)) else dec (nat i))"

subsection \<open>Settings, diagnostics and the state of the driver\<close>

text \<open>The fields of \<^verbatim>\<open>Settings\<close> that the driver reads; the leading underscore of the
  source's names is dropped, and \<^verbatim>\<open>reportProgress\<close> carries the name of its class.\<close>

record Settings =
  includePaths :: "string list"
  errorsOnly :: bool
  xml :: bool
  xml_version :: int
  verbose :: bool
  outputFormat :: string
  jobs :: unsigned_int
  exitCode :: int
  Settings_reportProgress :: bool
  exceptionHandling :: bool
  checkConfiguration :: bool
  standards_posix :: bool
  isEnabled :: "string \<Rightarrow> bool"
  terminated :: bool

text \<open>Only \<^verbatim>\<open>Severity::information\<close> is named in this file.\<close>

datatype Severity = information | other_severity string

record ErrorMessage =
  callStack :: "(string \<times> nat) list"
  severity :: Severity
  msg :: string
  id :: string
  inconclusive :: bool

text \<open>The calls that the engine, the thread executor and the base class
  \<^verbatim>\<open>ErrorLogger\<close> make back into the driver while they run. A progress report carries the
  reading of \<^verbatim>\<open>std::time\<close> at the moment it arrives.\<close>

datatype callback =
    ReportOut string
  | ReportErr ErrorMessage
  | ReportInfo ErrorMessage
  | ReportProgress string string size_t int
  | ReportStatus size_t size_t size_t size_t

text \<open>What was asked of the engine and of the thread executor, in order, each with the
  number it returned (zero for a call that returns nothing). The log is kept beside the
  state; the source has no such field.\<close>

datatype engine_call = Check string | CheckFunctionUsage | TooManyConfigsError | GetErrorMessages
  | ExecutorCheck

text \<open>The members of \<^verbatim>\<open>CppCheckExecutor\<close>, the two output streams and the engine.
  \<^verbatim>\<open>_files\<close> is a \<^verbatim>\<open>std::map<std::string, std::size_t>\<close>: the list holds its entries
  in the order the iterator visits them. \<^verbatim>\<open>_errorList\<close> is the field \<open>errorList\<close>,
  the flag \<^verbatim>\<open>errorlist\<close> the field \<open>errorlist\<close>. \<^verbatim>\<open>_settings\<close> points to
  \<open>settings\<close> whenever a function of the sink runs (set in lines 170 and 581, cleared in
  line 681 right before the return).\<close>

record 'e State =
  settings :: Settings
  files :: "(string \<times> size_t) list"
  time1 :: int
  errorList :: "string set"
  errorlist :: bool
  cout :: "string list"
  cerr :: "string list"
  engine :: 'e
  calls :: "(engine_call \<times> unsigned_int) list"

text \<open>The renderers of \<^verbatim>\<open>ErrorLogger::ErrorMessage\<close> (errorlogger.cpp) and the
  \<^verbatim>\<open>long double\<close> arithmetic of the status line.\<close>

record Render =
  getXMLHeader :: "int \<Rightarrow> string"
  getXMLFooter :: "int \<Rightarrow> string"
  toXML :: "bool \<Rightarrow> int \<Rightarrow> ErrorMessage \<Rightarrow> string"
  toString :: "bool \<Rightarrow> string \<Rightarrow> ErrorMessage \<Rightarrow> string"
  long_double_percent :: "size_t \<Rightarrow> size_t \<Rightarrow> int"

datatype error = DivisionByZero | NullPointer | BufferOverflow

subsection \<open>The diagnostic sink\<close>

text \<open>\<^verbatim>\<open>reportErr(const std::string &)\<close>, lines 688-696.\<close>

definition reportErr :: "string \<Rightarrow> 'e State \<Rightarrow> 'e State" where
  "reportErr errmsg st =
     (if errmsg \<in> errorList st then st
      else st\<lparr>errorList := insert errmsg (errorList st), cerr := cerr st @ [errmsg @ endl]\<rparr>)"

text \<open>\<^verbatim>\<open>reportOut\<close>, lines 698-701.\<close>

definition reportOut :: "string \<Rightarrow> 'e State \<Rightarrow> 'e State" where
  "reportOut outmsg st = st\<lparr>cout := cout st @ [outmsg @ endl]\<rparr>"

text \<open>\<^verbatim>\<open>reportProgress\<close>, lines 703-724; \<open>time2\<close> is what \<^verbatim>\<open>std::time(NULL)\<close>
  returns in line 711.\<close>

definition reportProgress :: "string \<Rightarrow> string \<Rightarrow> size_t \<Rightarrow> int \<Rightarrow> 'e State \<Rightarrow> 'e State" where
  "reportProgress filename stage val time2 st =
     (if time1 st = 0 then st
      else if time2 \<ge> time1 st + 10
        then reportOut (''progress: '' @ stage @ '' '' @ dec (unat val) @ ''%'') (st\<lparr>time1 := time2\<rparr>)
        else st)"

text \<open>\<^verbatim>\<open>reportErr(const ErrorLogger::ErrorMessage &)\<close>, lines 743-752.\<close>

definition reportErr_msg :: "Render \<Rightarrow> ErrorMessage \<Rightarrow> 'e State \<Rightarrow> 'e State" where
  "reportErr_msg r m st =
     (if errorlist st then reportOut (toXML r False (xml_version (settings st)) m) st
      else if xml (settings st)
        then reportErr (toXML r (verbose (settings st)) (xml_version (settings st)) m) st
        else reportErr (toString r (verbose (settings st)) (outputFormat (settings st)) m) st)"

text \<open>\<^verbatim>\<open>reportInfo\<close>, lines 726-729.\<close>

definition reportInfo :: "Render \<Rightarrow> ErrorMessage \<Rightarrow> 'e State \<Rightarrow> 'e State" where
  "reportInfo r m st = reportErr_msg r m st"

text \<open>The quotient of line 737. The division is a division of \<^verbatim>\<open>long double\<close> values
  whose result is cast to \<^verbatim>\<open>long\<close>: with a divisor zero the quotient is infinite or not
  a number and the cast is undefined, so the model fails there; elsewhere the value is
  what the floating-point unit gives, a parameter.\<close>

definition percent_of :: "Render \<Rightarrow> size_t \<Rightarrow> size_t \<Rightarrow> error + int" where
  "percent_of r sizedone sizetotal =
     (if sizetotal = 0 then Inl DivisionByZero else Inr (long_double_percent r sizedone sizetotal))"

text \<open>\<^verbatim>\<open>reportStatus\<close>, lines 731-741.\<close>

definition reportStatus ::
  "Render \<Rightarrow> size_t \<Rightarrow> size_t \<Rightarrow> size_t \<Rightarrow> size_t \<Rightarrow> 'e State \<Rightarrow> error + 'e State" where
  "reportStatus r fileindex filecount sizedone sizetotal st =
     (if filecount > 1 then
        (case (if sizetotal > 0 then percent_of r sizedone sizetotal else Inr 0) of
           Inl e \<Rightarrow> Inl e
         | Inr p \<Rightarrow> Inr (st\<lparr>cout := cout st @
             [dec (unat fileindex) @ ''/'' @ dec (unat filecount) @ '' files checked ''
               @ dec_int p @ ''% done'' @ endl]\<rparr>))
      else Inr st)"

text \<open>One call back into the driver, and a sequence of them.\<close>

fun apply_callback :: "Render \<Rightarrow> callback \<Rightarrow> 'e State \<Rightarrow> error + 'e State" where
  "apply_callback r (ReportOut s) st = Inr (reportOut s st)"
| "apply_callback r (ReportErr m) st = Inr (reportErr_msg r m st)"
| "apply_callback r (ReportInfo m) st = Inr (reportInfo r m st)"
| "apply_callback r (ReportProgress f stage v t) st = Inr (reportProgress f stage v t st)"
| "apply_callback r (ReportStatus i n d t) st = reportStatus r i n d t st"

fun apply_callbacks :: "Render \<Rightarrow> callback list \<Rightarrow> 'e State \<Rightarrow> error + 'e State" where
  "apply_callbacks r [] st = Inr st"
| "apply_callbacks r (c # cs) st =
     (case apply_callback r c st of Inl e \<Rightarrow> Inl e | Inr st' \<Rightarrow> apply_callbacks r cs st')"

text \<open>The constructor, lines 49-52, with nothing written yet.\<close>

definition CppCheckExecutor :: "Settings \<Rightarrow> 'e \<Rightarrow> 'e State" where
  "CppCheckExecutor s e =
     \<lparr>settings = s, files = [], time1 = 0, errorList = {}, errorlist = False,
      cout = [], cerr = [], engine = e, calls = []\<rparr>"

subsection \<open>The analysis engine and the other classes the dispatcher calls\<close>

text \<open>\<^verbatim>\<open>CppCheck\<close>, \<^verbatim>\<open>Library\<close>, \<^verbatim>\<open>Preprocessor\<close>, \<^verbatim>\<open>ThreadExecutor\<close> and
  \<^verbatim>\<open>Path\<close> are defined in other files. The engine has a state of its own, of type
  \<open>'e\<close>; each of its operations returns the calls it made back into the driver
  (\<open>CppCheck_check\<close> is \<^verbatim>\<open>CppCheck::check\<close>).
  \<open>library_load argv0 cfg\<close> says whether \<^verbatim>\<open>settings.library.load(argv0, cfg).errorcode\<close>
  is \<^verbatim>\<open>Library::OK\<close>; \<open>reportUnmatchedSuppressions\<close> gives the calls of the inherited
  \<^verbatim>\<open>ErrorLogger::reportUnmatchedSuppressions\<close>; \<open>CFGDIR\<close> is the macro of that name,
  \<open>None\<close> when it is not defined.\<close>

record 'e Engine =
  library_load :: "string \<Rightarrow> string \<Rightarrow> bool"
  markupFile :: "string \<Rightarrow> bool"
  processMarkupAfterCode :: "string \<Rightarrow> bool"
  CppCheck_check :: "string \<Rightarrow> 'e \<Rightarrow> unsigned_int \<times> callback list \<times> 'e"
  checkFunctionUsage :: "'e \<Rightarrow> callback list \<times> 'e"
  tooManyConfigsError :: "'e \<Rightarrow> callback list \<times> 'e"
  getErrorMessages :: "'e \<Rightarrow> callback list \<times> 'e"
  reportUnmatchedSuppressions :: "'e \<Rightarrow> callback list"
  missingIncludeFlag :: "'e \<Rightarrow> bool"
  missingSystemIncludeFlag :: "'e \<Rightarrow> bool"
  clearMissingIncludeFlags :: "'e \<Rightarrow> 'e"
  ThreadExecutor_isEnabled :: bool
  ThreadExecutor_check :: "(string \<times> size_t) list \<Rightarrow> Settings \<Rightarrow> 'e \<Rightarrow> unsigned_int \<times> callback list \<times> 'e"
  version :: string
  extraVersion :: string
  CFGDIR :: "string option"
  fromNativeSeparators :: "string \<Rightarrow> string"
  getPathFromFilename :: "string \<Rightarrow> string"

definition bind_err :: "error + 'a \<Rightarrow> ('a \<Rightarrow> error + 'b) \<Rightarrow> error + 'b" where
  "bind_err m f = (case m of Inl e \<Rightarrow> Inl e | Inr x \<Rightarrow> f x)"

text \<open>A call of the engine: its state moves on, the call is logged, and the calls it
  made back are run on the sink.\<close>

definition engine_call ::
  "Render \<Rightarrow> engine_call \<Rightarrow> unsigned_int \<Rightarrow> callback list \<times> 'e \<Rightarrow> 'e State \<Rightarrow> error + 'e State" where
  "engine_call r what n res st =
     apply_callbacks r (fst res) (st\<lparr>engine := snd res, calls := calls st @ [(what, n)]\<rparr>)"

definition cppcheck_check ::
  "Render \<Rightarrow> 'e Engine \<Rightarrow> string \<Rightarrow> 'e State \<Rightarrow> error + (unsigned_int \<times> 'e State)" where
  "cppcheck_check r g path st =
     (case CppCheck_check g path (engine st) of (n, res) \<Rightarrow>
        bind_err (engine_call r (Check path) n res st) (\<lambda>st'. Inr (n, st')))"

subsection \<open>The dispatcher: \<^verbatim>\<open>check_internal\<close>, lines 578-686\<close>

definition EXIT_SUCCESS :: int where "EXIT_SUCCESS = 0"
definition EXIT_FAILURE :: int where "EXIT_FAILURE = 1"

text \<open>The body shared by the two loops (lines 626-630 and 638-642) on the entry \<open>i\<close>
  of \<^verbatim>\<open>_files\<close>; the tuple is \<^verbatim>\<open>returnValue\<close>, \<^verbatim>\<open>processedsize\<close>, \<^verbatim>\<open>c\<close> and the
  state.\<close>

type_synonym 'e loop_vars = "unsigned_int \<times> size_t \<times> unsigned_int \<times> 'e State"

definition check_file ::
  "Render \<Rightarrow> 'e Engine \<Rightarrow> size_t \<Rightarrow> string \<times> size_t \<Rightarrow> 'e loop_vars \<Rightarrow> error + 'e loop_vars" where
  "check_file r g totalfilesize i = (\<lambda>(returnValue, processedsize, c, st).
     bind_err (cppcheck_check r g (fst i) st) (\<lambda>(n, st1).
     bind_err (if \<not> errorsOnly (settings st1)
               then reportStatus r (ucast (c + 1)) (of_nat (length (files st1)))
                      (processedsize + snd i) totalfilesize st1
               else Inr st1) (\<lambda>st2.
     Inr (returnValue + n, processedsize + snd i, c + 1, st2))))"

text \<open>The loop of lines 623-632.\<close>

fun first_loop ::
  "Render \<Rightarrow> 'e Engine \<Rightarrow> size_t \<Rightarrow> (string \<times> size_t) list \<Rightarrow> 'e loop_vars \<Rightarrow> error + 'e loop_vars" where
  "first_loop r g totalfilesize [] vars = Inr vars"
| "first_loop r g totalfilesize (i # rest) vars =
     (if \<not> markupFile g (fst i) \<or> \<not> processMarkupAfterCode g (fst i)
      then bind_err (check_file r g totalfilesize i vars) (first_loop r g totalfilesize rest)
      else first_loop r g totalfilesize rest vars)"

text \<open>The loop of lines 636-644.\<close>

fun second_loop ::
  "Render \<Rightarrow> 'e Engine \<Rightarrow> size_t \<Rightarrow> (string \<times> size_t) list \<Rightarrow> 'e loop_vars \<Rightarrow> error + 'e loop_vars" where
  "second_loop r g totalfilesize [] vars = Inr vars"
| "second_loop r g totalfilesize (i # rest) vars =
     (if markupFile g (fst i) \<and> processMarkupAfterCode g (fst i)
      then bind_err (check_file r g totalfilesize i vars) (second_loop r g totalfilesize rest)
      else second_loop r g totalfilesize rest vars)"

text \<open>The loop of lines 617-619.\<close>

fun totalfilesize_loop :: "(string \<times> size_t) list \<Rightarrow> size_t \<Rightarrow> size_t" where
  "totalfilesize_loop [] totalfilesize = totalfilesize"
| "totalfilesize_loop (i # rest) totalfilesize = totalfilesize_loop rest (totalfilesize + snd i)"

text \<open>Lines 612-653: the choice between the single process, the platform without threads
  and the thread executor. The result is \<^verbatim>\<open>returnValue\<close> and the state.\<close>

definition check_internal_dispatch ::
  "Render \<Rightarrow> 'e Engine \<Rightarrow> 'e State \<Rightarrow> error + (unsigned_int \<times> 'e State)" where
  "check_internal_dispatch r g st =
     (if jobs (settings st) = 1 then
        bind_err (first_loop r g (totalfilesize_loop (files st) 0) (files st) (0, 0, 0, st)) (\<lambda>vars1.
        bind_err (second_loop r g (totalfilesize_loop (files st) 0) (files st) vars1)
          (\<lambda>(returnValue, processedsize, c, st2).
        bind_err (engine_call r CheckFunctionUsage 0 (checkFunctionUsage g (engine st2)) st2) (\<lambda>st3.
        Inr (returnValue, st3))))
      else if \<not> ThreadExecutor_isEnabled g then
        Inr (0, st\<lparr>cout := cout st @ [''No thread support yet implemented for this platform.'' @ endl]\<rparr>)
      else
        (case ThreadExecutor_check g (files st) (settings st) (engine st) of (n, res) \<Rightarrow>
           bind_err (engine_call r ExecutorCheck n res st) (\<lambda>st'. Inr (n, st'))))"

text \<open>The message of lines 663-672.\<close>

definition missingInclude_message :: "bool \<Rightarrow> ErrorMessage" where
  "missingInclude_message missingInclude =
     \<lparr>callStack = [], severity = information,
      msg = ''Cppcheck cannot find all the include files (use --check-config for details)'' @ [CHR 0x0A]
        @ ''Cppcheck cannot find all the include files. Cppcheck can check the code without the ''
        @ ''include files found. But the results will probably be more accurate if all the include ''
        @ ''files are found. Please check your project's include directories and add all of them ''
        @ ''as include directories for Cppcheck. To see what files Cppcheck cannot find use ''
        @ ''--check-config.'',
      id = (if missingInclude then ''missingInclude'' else ''missingIncludeSystem''),
      inconclusive = False\<rparr>"

text \<open>Lines 655-675.\<close>

definition check_internal_reports :: "Render \<Rightarrow> 'e Engine \<Rightarrow> 'e State \<Rightarrow> error + 'e State" where
  "check_internal_reports r g st =
     bind_err (if isEnabled (settings st) ''information'' \<or> checkConfiguration (settings st)
               then apply_callbacks r (reportUnmatchedSuppressions g (engine st)) st
               else Inr st) (\<lambda>st1.
     if \<not> checkConfiguration (settings st1) then
       bind_err (engine_call r TooManyConfigsError 0 (tooManyConfigsError g (engine st1)) st1) (\<lambda>st2.
       if isEnabled (settings st2) ''missingInclude''
          \<and> (missingIncludeFlag g (engine st2) \<or> missingSystemIncludeFlag g (engine st2))
       then Inr (reportInfo r (missingInclude_message (missingIncludeFlag g (engine st2))) st2)
       else Inr st2)
     else Inr st1)"

text \<open>The message of lines 588-600.\<close>

definition failedToLoadCfg_message :: "'e Engine \<Rightarrow> string \<Rightarrow> bool \<Rightarrow> ErrorMessage" where
  "failedToLoadCfg_message g argv0 std =
     \<lparr>callStack = [], severity = information,
      msg = (''Failed to load '' @ (if \<not> std then ''std.cfg'' else ''posix.cfg'')
             @ ''. Your Cppcheck installation is broken, please re-install.'')
        @ '' '' @
        (case CFGDIR g of
           Some dir \<Rightarrow> ''The Cppcheck binary was compiled with CFGDIR set to '' @ [CHR 0x22] @ dir
             @ [CHR 0x22] @ '' and will therefore search for std.cfg in that path.''
         | None \<Rightarrow> ''The Cppcheck binary was compiled without CFGDIR set. Either the ''
             @ ''std.cfg should be available in ''
             @ (fromNativeSeparators g (getPathFromFilename g argv0) @ ''cfg'')
             @ '' or the CFGDIR should be configured.''),
      id = ''failedToLoadCfg'', inconclusive = False\<rparr>"

text \<open>\<^verbatim>\<open>check_internal\<close>; \<open>now\<close> is what \<^verbatim>\<open>std::time(0)\<close> returns in line 606. The
  result is the value returned and the state.\<close>

definition check_internal ::
  "Render \<Rightarrow> 'e Engine \<Rightarrow> string \<Rightarrow> int \<Rightarrow> 'e State \<Rightarrow> error + (int \<times> 'e State)" where
  "check_internal r g argv0 now st =
     (let std = library_load g argv0 ''std.cfg'';
          posix = (if standards_posix (settings st) then library_load g argv0 ''posix.cfg'' else True)
      in if \<not> std \<or> \<not> posix then
           Inr (EXIT_FAILURE, reportErr_msg r (failedToLoadCfg_message g argv0 std) st)
         else
           let st1 = (if Settings_reportProgress (settings st) then st\<lparr>time1 := now\<rparr> else st);
               st2 = (if xml (settings st1)
                      then reportErr (getXMLHeader r (xml_version (settings st1))) st1 else st1)
           in bind_err (check_internal_dispatch r g st2) (\<lambda>(returnValue, st3).
              bind_err (check_internal_reports r g st3) (\<lambda>st4.
              let st5 = (if xml (settings st4)
                         then reportErr (getXMLFooter r (xml_version (settings st4))) st4 else st4)
              in Inr (if returnValue \<noteq> 0 then exitCode (settings st5) else 0, st5))))"

subsection \<open>Preparing the file set: \<^verbatim>\<open>parseFromArgs\<close>, lines 58-160\<close>

text \<open>What the command-line parser holds after \<^verbatim>\<open>ParseFromArgs(argc, argv)\<close>
  (cmdlineparser.cpp); \<open>success\<close> is the value that call returned.\<close>

record Parser =
  success :: bool
  GetShowVersion :: bool
  GetShowErrorMessages :: bool
  ExitAfterPrinting :: bool
  GetPathNames :: "string list"
  GetIgnoredPaths :: "string list"

text \<open>\<^verbatim>\<open>Path\<close>, \<^verbatim>\<open>FileLister\<close> and \<^verbatim>\<open>PathMatch\<close> (path.cpp, filelister.cpp,
  pathmatch.cpp). \<open>recursiveAddFiles fs path\<close> is the file map after
  \<^verbatim>\<open>FileLister::recursiveAddFiles(fs, path, markupExtensions)\<close>; \<open>Match masks cs path\<close>
  is \<^verbatim>\<open>PathMatch(masks, cs).Match(path)\<close>; \<open>WIN32\<close> says whether the macro
  \<^verbatim>\<open>_WIN32\<close> is defined.\<close>

record PathOps =
  toNativeSeparators :: "string \<Rightarrow> string"
  isDirectory :: "string \<Rightarrow> bool"
  recursiveAddFiles :: "(string \<times> size_t) list \<Rightarrow> string \<Rightarrow> (string \<times> size_t) list"
  getFilenameExtension :: "string \<Rightarrow> string"
  Match :: "string list \<Rightarrow> bool \<Rightarrow> string \<Rightarrow> bool"
  WIN32 :: bool

text \<open>The loop of lines 91-105 over \<^verbatim>\<open>settings._includePaths\<close>: the result is the list
  that is left and the state with the warnings written.\<close>

fun includePaths_loop :: "PathOps \<Rightarrow> string list \<Rightarrow> 'e State \<Rightarrow> string list \<times> 'e State" where
  "includePaths_loop p [] st = ([], st)"
| "includePaths_loop p (iter # rest) st =
     (let path = toNativeSeparators p iter in
      if isDirectory p path then
        (case includePaths_loop p rest st of (kept, st') \<Rightarrow> (iter # kept, st'))
      else
        includePaths_loop p rest
          (if \<not> errorsOnly (settings st)
           then st\<lparr>cout := cout st @
             [''cppcheck: warning: Couldn'' @ [CHR 0x27] @ ''t find path given by -I ''
               @ [CHR 0x27] @ path @ [CHR 0x27] @ endl]\<rparr>
           else st))"

text \<open>The loop of lines 113-114.\<close>

fun recursiveAddFiles_loop ::
  "PathOps \<Rightarrow> string list \<Rightarrow> (string \<times> size_t) list \<Rightarrow> (string \<times> size_t) list" where
  "recursiveAddFiles_loop p [] fs = fs"
| "recursiveAddFiles_loop p (iter # rest) fs =
     recursiveAddFiles_loop p rest (recursiveAddFiles p fs (toNativeSeparators p iter))"

text \<open>The loop of lines 123-130 over the local vector \<^verbatim>\<open>ignored\<close>: the entries that
  stay (those already passed are \<open>kept\<close>) and the flag \<^verbatim>\<open>warn\<close>.\<close>

fun ignored_loop :: "PathOps \<Rightarrow> string list \<Rightarrow> string list \<Rightarrow> bool \<Rightarrow> string list \<times> bool" where
  "ignored_loop p [] kept warn = (kept, warn)"
| "ignored_loop p (i # rest) kept warn =
     (let extension = getFilenameExtension p i in
      if extension = ''.h'' \<or> extension = ''.hpp'' then ignored_loop p rest kept True
      else ignored_loop p rest (kept @ [i]) warn)"

text \<open>The loop of lines 143-148 with the matcher built in line 142.\<close>

fun erase_loop :: "PathOps \<Rightarrow> string list \<Rightarrow> bool \<Rightarrow> (string \<times> size_t) list \<Rightarrow> (string \<times> size_t) list" where
  "erase_loop p masks caseSensitive [] = []"
| "erase_loop p masks caseSensitive (i # rest) =
     (if Match p masks caseSensitive (fst i) then erase_loop p masks caseSensitive rest
      else i # erase_loop p masks caseSensitive rest)"

text \<open>Lines 117-159. The matcher of line 142 is built from
  \<^verbatim>\<open>parser.GetIgnoredPaths()\<close>; the vector \<^verbatim>\<open>ignored\<close> of line 122 is a copy of it,
  and nothing reads the copy after the loop.\<close>

definition parseFromArgs_files :: "PathOps \<Rightarrow> Parser \<Rightarrow> 'e State \<Rightarrow> bool \<times> 'e State" where
  "parseFromArgs_files p parser st =
     (if files st \<noteq> [] then
        (case ignored_loop p (GetIgnoredPaths parser) [] False of (ignored, warn) \<Rightarrow>
           let st1 = (if warn then st\<lparr>cout := cout st @
                 [''cppcheck: filename exclusion does not apply to header (.h and .hpp) files.'' @ endl,
                  ''cppcheck: Please use --suppress for ignoring results from the header files.'' @ endl]\<rparr>
               else st);
               caseSensitive = (if WIN32 p then False else True);
               st2 = st1\<lparr>files := erase_loop p (GetIgnoredPaths parser) caseSensitive (files st1)\<rparr>
           in if files st2 \<noteq> [] then (True, st2)
              else (False, st2\<lparr>cout := cout st2 @
                 [''cppcheck: error: no files to check - all paths ignored.'' @ endl]\<rparr>))
      else (False, st\<lparr>cout := cout st @
              [''cppcheck: error: could not find or open any of the paths given.'' @ endl]\<rparr>))"

text \<open>\<^verbatim>\<open>parseFromArgs\<close>. The state given is the one the parser left.\<close>

definition parseFromArgs ::
  "Render \<Rightarrow> 'e Engine \<Rightarrow> PathOps \<Rightarrow> Parser \<Rightarrow> 'e State \<Rightarrow> error + (bool \<times> 'e State)" where
  "parseFromArgs r g p parser st =
     (if success parser then
        let st1 = (if GetShowVersion parser \<and> \<not> GetShowErrorMessages parser then
                     (if extraVersion g \<noteq> []
                      then st\<lparr>cout := cout st @
                        [''Cppcheck '' @ version g @ '' ('' @ extraVersion g @ '')'' @ endl]\<rparr>
                      else st\<lparr>cout := cout st @ [''Cppcheck '' @ version g @ endl]\<rparr>)
                   else st)
        in bind_err
             (if GetShowErrorMessages parser then
                bind_err (engine_call r GetErrorMessages 0 (getErrorMessages g (engine st1))
                            (st1\<lparr>errorlist := True,
                                 cout := cout st1 @ [getXMLHeader r (xml_version (settings st1))]\<rparr>))
                  (\<lambda>st2. Inr (st2\<lparr>cout := cout st2 @
                                 [getXMLFooter r (xml_version (settings st2)) @ endl]\<rparr>))
              else Inr st1)
             (\<lambda>st3.
                if ExitAfterPrinting parser
                then Inr (True, st3\<lparr>settings := (settings st3)\<lparr>terminated := True\<rparr>\<rparr>)
                else
                  (case includePaths_loop p (includePaths (settings st3)) st3 of (kept, st4) \<Rightarrow>
                     let st5 = st4\<lparr>settings := (settings st4)\<lparr>includePaths := kept\<rparr>\<rparr>;
                         st6 = (if GetPathNames parser \<noteq> []
                                then st5\<lparr>files := recursiveAddFiles_loop p (GetPathNames parser) (files st5)\<rparr>
                                else st5)
                     in Inr (parseFromArgs_files p parser st6)))
      else Inr (False, st))"

subsection \<open>\<^verbatim>\<open>check\<close> and \<^verbatim>\<open>check_wrapper\<close>, lines 162-184 and 550-573\<close>

text \<open>\<^verbatim>\<open>check_wrapper\<close> installs \<^verbatim>\<open>CppcheckSignalHandler\<close> for the signals of
  \<^verbatim>\<open>listofsignals\<close> (on Windows it puts the call into a \<^verbatim>\<open>__try\<close> block instead) and
  calls \<^verbatim>\<open>check_internal\<close>. A fault is an event of the operating system, not a value
  the engine returns, so a run without a fault is \<^verbatim>\<open>check_internal\<close>; what the handler
  does with a fault is \<open>CppcheckSignalHandler\<close> below.\<close>

definition check_wrapper ::
  "Render \<Rightarrow> 'e Engine \<Rightarrow> string \<Rightarrow> int \<Rightarrow> 'e State \<Rightarrow> error + (int \<times> 'e State)" where
  "check_wrapper r g argv0 now st = check_internal r g argv0 now st"

text \<open>\<^verbatim>\<open>check\<close>: the two flags of \<^verbatim>\<open>Preprocessor\<close> are cleared (lines 164-165), then
  the arguments are read and the files checked.\<close>

definition check ::
  "Render \<Rightarrow> 'e Engine \<Rightarrow> PathOps \<Rightarrow> Parser \<Rightarrow> string \<Rightarrow> int \<Rightarrow> 'e State \<Rightarrow> error + (int \<times> 'e State)" where
  "check r g p parser argv0 now st =
     bind_err (parseFromArgs r g p parser (st\<lparr>engine := clearMissingIncludeFlags g (engine st)\<rparr>))
       (\<lambda>(ok, st1).
          if \<not> ok then Inr (EXIT_FAILURE, st1)
          else if terminated (settings st1) then Inr (EXIT_SUCCESS, st1)
          else if exceptionHandling (settings st1) then check_wrapper r g argv0 now st1
          else check_internal r g argv0 now st1)"

subsection \<open>The signal handler, lines 186-423\<close>

text \<open>The numbers of \<^verbatim>\<open><signal.h>\<close>: the signals of \<^verbatim>\<open>listofsignals\<close> and the values
  of \<^verbatim>\<open>si_code\<close>. \<^verbatim>\<open>BUS_MCEERR_AR\<close> and \<^verbatim>\<open>BUS_MCEERR_AO\<close> are \<open>None\<close> where the
  header does not define them (lines 315 and 320).\<close>

record Signals =
  SIGBUS :: int
  SIGFPE :: int
  SIGILL :: int
  SIGINT :: int
  SIGSEGV :: int
  BUS_ADRALN :: int
  BUS_ADRERR :: int
  BUS_OBJERR :: int
  BUS_MCEERR_AR :: "int option"
  BUS_MCEERR_AO :: "int option"
  SEGV_MAPERR :: int
  SEGV_ACCERR :: int

record SigCodes =
  FPE_INTDIV :: int
  FPE_INTOVF :: int
  FPE_FLTDIV :: int
  FPE_FLTOVF :: int
  FPE_FLTUND :: int
  FPE_FLTRES :: int
  FPE_FLTINV :: int
  FPE_FLTSUB :: int
  ILL_ILLOPC :: int
  ILL_ILLOPN :: int
  ILL_ILLADR :: int
  ILL_ILLTRP :: int
  ILL_PRVOPC :: int
  ILL_PRVREG :: int
  ILL_COPROC :: int
  ILL_BADSTK :: int

text \<open>What the C runtime gives the handler: \<^verbatim>\<open>strsignal\<close>, the rendering of
  \<^verbatim>\<open>%p\<close>, \<^verbatim>\<open>sizeof(long)\<close>, the return addresses that \<^verbatim>\<open>backtrace\<close> finds on the
  stack (innermost first), the line \<^verbatim>\<open>backtrace_symbols\<close> makes of an address
  (\<open>symbols_allocated\<close> is false when it returns null) and \<^verbatim>\<open>abi::__cxa_demangle\<close>.
  \<open>USE_UNIX_SIGNAL_SUPPORT\<close> says whether the macro of that name is defined where the
  file is compiled; the file itself defines \<^verbatim>\<open>USE_UNIX_SIGNAL_HANDLING\<close> (line 36) and
  never \<^verbatim>\<open>USE_UNIX_SIGNAL_SUPPORT\<close>.\<close>

record Runtime =
  signals :: Signals
  sigcodes :: SigCodes
  strsignal :: "int \<Rightarrow> string"
  print_pointer :: "nat \<Rightarrow> string"
  sizeof_long :: nat
  return_addresses :: "nat list"
  symbols_allocated :: bool
  symbol_of :: "nat \<Rightarrow> string"
  cxa_demangle :: "string \<Rightarrow> string option"
  USE_UNIX_SIGNAL_SUPPORT :: bool

record siginfo_t =
  si_code :: int
  si_addr :: nat

text \<open>\<^verbatim>\<open>listofsignals\<close>, lines 197-205, and \<^verbatim>\<open>signal_name\<close>, lines 220-227.\<close>

definition listofsignals :: "Signals \<Rightarrow> (int \<times> string) list" where
  "listofsignals sg =
     [(SIGBUS sg, ''SIGBUS''), (SIGFPE sg, ''SIGFPE''), (SIGILL sg, ''SIGILL''),
      (SIGINT sg, ''SIGINT''), (SIGSEGV sg, ''SIGSEGV'')]"

fun signal_name_loop :: "(int \<times> string) list \<Rightarrow> int \<Rightarrow> string" where
  "signal_name_loop [] signo = []"
| "signal_name_loop (s # rest) signo = (if fst s = signo then snd s else signal_name_loop rest signo)"

definition signal_name :: "Signals \<Rightarrow> int \<Rightarrow> string" where
  "signal_name sg signo = signal_name_loop (listofsignals sg) signo"

text \<open>\<^verbatim>\<open>ADDRESSDISPLAYLENGTH\<close>, line 231.\<close>

definition ADDRESSDISPLAYLENGTH :: "Runtime \<Rightarrow> int" where
  "ADDRESSDISPLAYLENGTH rt = (if sizeof_long rt = 8 then 12 else 8)"

text \<open>\<^verbatim>\<open>strchr\<close>: the offset of the first occurrence, \<open>None\<close> for the null pointer.\<close>

fun strchr :: "string \<Rightarrow> char \<Rightarrow> nat option" where
  "strchr [] c = None"
| "strchr (x # xs) c = (if x = c then Some 0 else map_option Suc (strchr xs c))"

text \<open>\<^verbatim>\<open>%-2d\<close> and \<^verbatim>\<open>%.*s\<close> (a negative precision counts as none given).\<close>

definition left_justified :: "nat \<Rightarrow> string \<Rightarrow> string" where
  "left_justified w s = s @ replicate (w - length s) CHR '' ''"

definition with_precision :: "int \<Rightarrow> string \<Rightarrow> string" where
  "with_precision n s = (if n < 0 then s else take (nat n) s)"

text \<open>Lines 256-266: the name between the bracket and the plus sign is copied into a buffer
  of 512 bytes and demangled; \<open>None\<close> is the null \<^verbatim>\<open>realname\<close>, and
  \<open>plus_offset\<close> is \<^verbatim>\<open>plus - firstBracketName\<close>.\<close>

definition demangled_name :: "Runtime \<Rightarrow> bool \<Rightarrow> string \<Rightarrow> error + string option" where
  "demangled_name rt demangling symbol =
     (case strchr symbol CHR ''('' of
        None \<Rightarrow> Inr None
      | Some firstBracketName \<Rightarrow>
          if demangling then
            (case strchr (drop firstBracketName symbol) CHR ''+'' of
               None \<Rightarrow> Inr None
             | Some plus_offset \<Rightarrow>
                 if plus_offset > 1 then
                   (if plus_offset - 1 \<ge> 512 then Inl BufferOverflow
                    else Inr (cxa_demangle rt
                           (take (plus_offset - 1) (drop (firstBracketName + 1) symbol))))
                 else Inr None)
          else Inr None)"

text \<open>The body of the loop of lines 247-282 for the entry \<open>i\<close> of \<^verbatim>\<open>symbolstrings\<close>.
  \<^verbatim>\<open>strchr(firstBracketAddress, ']')\<close> with a null argument, the difference of a null
  pointer and a read behind the end of the line are undefined: the model fails there.\<close>

definition print_frame :: "Runtime \<Rightarrow> bool \<Rightarrow> nat \<Rightarrow> string \<Rightarrow> error + string list" where
  "print_frame rt demangling i symbol =
     (case strchr symbol CHR ''['' of
        None \<Rightarrow> Inl NullPointer
      | Some firstBracketAddress \<Rightarrow>
          (case strchr (drop firstBracketAddress symbol) CHR '']'' of
             None \<Rightarrow> Inl NullPointer
           | Some k \<Rightarrow>
               let secondBracketAddress = firstBracketAddress + k;
                   beginAddress = firstBracketAddress + 3;
                   addressLen = int secondBracketAddress - int beginAddress;
                   padLen = ADDRESSDISPLAYLENGTH rt - addressLen;
                   ordinal = i - 3
               in if beginAddress > length symbol then Inl BufferOverflow
                  else bind_err (demangled_name rt demangling symbol) (\<lambda>realname.
                    Inr ([''#'' @ left_justified 2 (dec ordinal) @ '' 0x'']
                         @ (if padLen > 0 then [replicate (nat padLen) CHR ''0''] else [])
                         @ [case realname of
                              Some name \<Rightarrow>
                                with_precision (int secondBracketAddress - int firstBracketAddress - 3)
                                  (drop beginAddress symbol) @ '' in '' @ name @ [CHR 0x0A]
                            | None \<Rightarrow>
                                with_precision (int secondBracketAddress - int firstBracketAddress - 3)
                                  (drop beginAddress symbol) @ '' in ''
                                  @ take firstBracketAddress symbol @ [CHR 0x0A]]))))"

text \<open>The loop of lines 247-282, from the index \<open>i\<close> on.\<close>

fun frames_loop :: "Runtime \<Rightarrow> bool \<Rightarrow> nat \<Rightarrow> string list \<Rightarrow> error + string list" where
  "frames_loop rt demangling i [] = Inr []"
| "frames_loop rt demangling i (symbol # rest) =
     bind_err (print_frame rt demangling i symbol) (\<lambda>out.
     bind_err (frames_loop rt demangling (Suc i) rest) (\<lambda>outs. Inr (out @ outs)))"

text \<open>\<^verbatim>\<open>print_stacktrace\<close>, lines 238-288: what it writes to \<^verbatim>\<open>f\<close>. The body stands
  between \<^verbatim>\<open>#if defined(USE_UNIX_SIGNAL_SUPPORT)\<close> and \<^verbatim>\<open>#endif\<close>.\<close>

definition print_stacktrace :: "Runtime \<Rightarrow> bool \<Rightarrow> error + string list" where
  "print_stacktrace rt demangling =
     (if USE_UNIX_SIGNAL_SUPPORT rt then
        let array = take 32 (return_addresses rt);
            depth = length array
        in if symbols_allocated rt then
             bind_err (frames_loop rt demangling 3 (drop 3 (map (symbol_of rt) array))) (\<lambda>outs.
               Inr ([''Callstack:'' @ [CHR 0x0A]] @ outs))
           else Inr [''Callstack could not be obtained'' @ [CHR 0x0A]]
      else Inr [])"

text \<open>The static member \<^verbatim>\<open>exceptionOutput\<close> (line 764, an empty string when the
  program starts) with its two accessors, lines 754-762.\<close>

record Statics =
  exceptionOutput :: string

definition Statics_initial :: Statics where
  "Statics_initial = \<lparr>exceptionOutput = []\<rparr>"

definition setExceptionOutput :: "string \<Rightarrow> Statics \<Rightarrow> Statics" where
  "setExceptionOutput fn s = s\<lparr>exceptionOutput := fn\<rparr>"

definition getExceptionOutput :: "Statics \<Rightarrow> string" where
  "getExceptionOutput s = exceptionOutput s"

datatype FILE = stdout | stderr

text \<open>The texts of the inner switches, lines 305-327, 332-359, 364-391 and 400-409.\<close>

definition bus_code :: "Signals \<Rightarrow> int \<Rightarrow> string list" where
  "bus_code sg code =
     (if code = BUS_ADRALN sg then ['' - BUS_ADRALN'']
      else if code = BUS_ADRERR sg then ['' - BUS_ADRERR'']
      else if code = BUS_OBJERR sg then ['' - BUS_OBJERR'']
      else if Some code = BUS_MCEERR_AR sg then ['' - BUS_MCEERR_AR'']
      else if Some code = BUS_MCEERR_AO sg then ['' - BUS_MCEERR_AO'']
      else [])"

definition fpe_code :: "SigCodes \<Rightarrow> int \<Rightarrow> string list" where
  "fpe_code sc code =
     (if code = FPE_INTDIV sc then ['' - FPE_INTDIV'']
      else if code = FPE_INTOVF sc then ['' - FPE_INTOVF'']
      else if code = FPE_FLTDIV sc then ['' - FPE_FLTDIV'']
      else if code = FPE_FLTOVF sc then ['' - FPE_FLTOVF'']
      else if code = FPE_FLTUND sc then ['' - FPE_FLTUND'']
      else if code = FPE_FLTRES sc then ['' - FPE_FLTRES'']
      else if code = FPE_FLTINV sc then ['' - FPE_FLTINV'']
      else if code = FPE_FLTSUB sc then ['' - FPE_FLTSUB'']
      else [])"

definition ill_code :: "SigCodes \<Rightarrow> int \<Rightarrow> string list" where
  "ill_code sc code =
     (if code = ILL_ILLOPC sc then ['' - ILL_ILLOPC'']
      else if code = ILL_ILLOPN sc then ['' - ILL_ILLOPN'']
      else if code = ILL_ILLADR sc then ['' - ILL_ILLADR'']
      else if code = ILL_ILLTRP sc then ['' - ILL_ILLTRP'']
      else if code = ILL_PRVOPC sc then ['' - ILL_PRVOPC'']
      else if code = ILL_PRVREG sc then ['' - ILL_PRVREG'']
      else if code = ILL_COPROC sc then ['' - ILL_COPROC'']
      else if code = ILL_BADSTK sc then ['' - ILL_BADSTK'']
      else [])"

definition segv_code :: "Signals \<Rightarrow> int \<Rightarrow> string list" where
  "segv_code sg code =
     (if code = SEGV_MAPERR sg then ['' - SEGV_MAPERR'']
      else if code = SEGV_ACCERR sg then ['' - SEGV_ACCERR'']
      else [])"

definition at_address :: "Runtime \<Rightarrow> siginfo_t \<Rightarrow> string" where
  "at_address rt info = '' (at 0x'' @ print_pointer rt (si_addr info) @ '').'' @ [CHR 0x0A]"

text \<open>The outer switch, lines 303-416: what it writes and the value of
  \<^verbatim>\<open>bPrintCallstack\<close> after it.\<close>

definition signal_switch :: "Runtime \<Rightarrow> int \<Rightarrow> siginfo_t \<Rightarrow> string list \<times> bool" where
  "signal_switch rt signo info =
     (if signo = SIGBUS (signals rt) then
        (bus_code (signals rt) (si_code info) @ [at_address rt info], True)
      else if signo = SIGFPE (signals rt) then
        (fpe_code (sigcodes rt) (si_code info) @ [at_address rt info], True)
      else if signo = SIGILL (signals rt) then
        (ill_code (sigcodes rt) (si_code info) @ [at_address rt info], True)
      else if signo = SIGINT (signals rt) then
        ([''.'' @ [CHR 0x0A]], False)
      else if signo = SIGSEGV (signals rt) then
        (segv_code (signals rt) (si_code info) @ [at_address rt info], True)
      else ([''.'' @ [CHR 0x0A]], True))"

text \<open>How the handler ends: with \<^verbatim>\<open>abort()\<close>, or in undefined behaviour before it.\<close>

datatype ending = Aborted | Undefined error

record FaultReport =
  stream :: FILE
  written :: "string list"
  ending :: ending

text \<open>\<^verbatim>\<open>CppcheckSignalHandler\<close>, lines 293-422.\<close>

definition CppcheckSignalHandler :: "Runtime \<Rightarrow> Statics \<Rightarrow> int \<Rightarrow> siginfo_t \<Rightarrow> FaultReport" where
  "CppcheckSignalHandler rt statics signo info =
     (let signame = signal_name (signals rt) signo;
          sigtext = strsignal rt signo;
          f = (if getExceptionOutput statics = ''stderr'' then stderr else stdout);
          head = [''Internal error: cppcheck received signal '', signame, '', '', sigtext]
      in case signal_switch rt signo info of (out, bPrintCallstack) \<Rightarrow>
           if bPrintCallstack then
             (case print_stacktrace rt True of
                Inl e \<Rightarrow> \<lparr>stream = f, written = head @ out, ending = Undefined e\<rparr>
              | Inr trace \<Rightarrow>
                  \<lparr>stream = f,
                   written = head @ out @ trace
                     @ [[CHR 0x0A] @ ''Please report this to the cppcheck developers!'' @ [CHR 0x0A]],
                   ending = Aborted\<rparr>)
           else \<lparr>stream = f, written = head @ out, ending = Aborted\<rparr>)"

subsection \<open>The file map\<close>

text \<open>\<^verbatim>\<open>_files\<close> is a \<^verbatim>\<open>std::map\<close> with keys of type \<^verbatim>\<open>std::string\<close>: its iterator
  visits the keys in ascending order of \<^verbatim>\<open>operator<\<close>, which compares byte by byte.
  \<open>map_assign k v m\<close> is the map after \<^verbatim>\<open>m[k] = v\<close>.\<close>

fun string_less :: "string \<Rightarrow> string \<Rightarrow> bool" where
  "string_less [] [] = False"
| "string_less [] (y # ys) = True"
| "string_less (x # xs) [] = False"
| "string_less (x # xs) (y # ys) =
     (if (of_char x :: nat) < of_char y then True
      else if (of_char y :: nat) < of_char x then False
      else string_less xs ys)"

fun map_assign :: "string \<Rightarrow> size_t \<Rightarrow> (string \<times> size_t) list \<Rightarrow> (string \<times> size_t) list" where
  "map_assign k v [] = [(k, v)]"
| "map_assign k v (e # rest) =
     (if string_less k (fst e) then (k, v) # e # rest
      else if string_less (fst e) k then e # map_assign k v rest
      else (k, v) # rest)"

subsection \<open>Notions used in the statements\<close>

text \<open>A file is left for the second loop when it is a markup file that asks to be
  processed after the code (the condition of line 637; line 624 is its negation).\<close>

definition after_code :: "'e Engine \<Rightarrow> string \<Rightarrow> bool" where
  "after_code g path \<longleftrightarrow> markupFile g path \<and> processMarkupAfterCode g path"

text \<open>The files handed to \<^verbatim>\<open>CppCheck::check\<close>, in the order of the calls.\<close>

fun analysed :: "(engine_call \<times> unsigned_int) list \<Rightarrow> string list" where
  "analysed [] = []"
| "analysed ((Check path, n) # rest) = path # analysed rest"
| "analysed (other # rest) = analysed rest"

text \<open>Both configuration files that lines 582-585 ask for were loaded.\<close>

definition libraries_loaded :: "'e Engine \<Rightarrow> string \<Rightarrow> Settings \<Rightarrow> bool" where
  "libraries_loaded g argv0 s \<longleftrightarrow>
     library_load g argv0 ''std.cfg'' \<and> (standards_posix s \<longrightarrow> library_load g argv0 ''posix.cfg'')"

text \<open>The texts of \<^verbatim>\<open>_errorList\<close> are the lines of the error stream, each written
  once.\<close>

definition sink_inv :: "'e State \<Rightarrow> bool" where
  "sink_inv st \<longleftrightarrow> distinct (cerr st) \<and> set (cerr st) = (\<lambda>s. s @ endl) ` errorList st"

text \<open>The texts that \<^verbatim>\<open>reportErr(const ErrorMessage &)\<close> can hand to
  \<^verbatim>\<open>reportErr(const std::string &)\<close> in a state.\<close>

definition rendered :: "Render \<Rightarrow> 'e State \<Rightarrow> string set" where
  "rendered r st =
     (if errorlist st then {}
      else if xml (settings st)
        then range (toXML r (verbose (settings st)) (xml_version (settings st)))
        else range (toString r (verbose (settings st)) (outputFormat (settings st))))"

text \<open>From \<open>st\<close> to \<open>st'\<close> the sink has only written: the settings, the files and the
  flag \<^verbatim>\<open>errorlist\<close> are as before, the error stream has grown by rendered texts that
  were new, each once, and the output stream has grown.\<close>

definition grows :: "Render \<Rightarrow> 'e State \<Rightarrow> 'e State \<Rightarrow> bool" where
  "grows r st st' \<longleftrightarrow>
     settings st' = settings st \<and> files st' = files st \<and> errorlist st' = errorlist st \<and>
     (\<exists>ws. cerr st' = cerr st @ map (\<lambda>s. s @ endl) ws \<and> distinct ws \<and>
           set ws \<inter> errorList st = {} \<and> errorList st' = errorList st \<union> set ws \<and>
           set ws \<subseteq> rendered r st) \<and>
     (\<exists>os. cout st' = cout st @ os)"

text \<open>The line of \<^verbatim>\<open>reportStatus\<close> and the line of line 648.\<close>

definition status_line :: "Render \<Rightarrow> size_t \<Rightarrow> size_t \<Rightarrow> size_t \<Rightarrow> size_t \<Rightarrow> string" where
  "status_line r fileindex filecount sizedone sizetotal =
     dec (unat fileindex) @ ''/'' @ dec (unat filecount) @ '' files checked ''
       @ dec_int (if sizetotal = 0 then 0 else long_double_percent r sizedone sizetotal)
       @ ''% done'' @ endl"

definition no_threads_line :: string where
  "no_threads_line = ''No thread support yet implemented for this platform.'' @ endl"

text \<open>Lines 605-610 and lines 677-679 of \<^verbatim>\<open>check_internal\<close> as steps of their own.\<close>

definition with_header :: "Render \<Rightarrow> int \<Rightarrow> 'e State \<Rightarrow> 'e State" where
  "with_header r now st =
     (let st1 = (if Settings_reportProgress (settings st) then st\<lparr>time1 := now\<rparr> else st)
      in if xml (settings st1) then reportErr (getXMLHeader r (xml_version (settings st1))) st1 else st1)"

definition with_footer :: "Render \<Rightarrow> 'e State \<Rightarrow> 'e State" where
  "with_footer r st =
     (if xml (settings st) then reportErr (getXMLFooter r (xml_version (settings st))) st else st)"

subsection \<open>Concrete parameters for the examples\<close>

text \<open>A renderer: the plain form of a diagnostic is its locations followed by its message,
  the structured form an element with its identifier and locations; the percentage is the
  exact quotient rounded down.\<close>

definition locations :: "ErrorMessage \<Rightarrow> string" where
  "locations m = concat (map (\<lambda>(file, line). ''['' @ file @ '':'' @ dec line @ '']'') (callStack m))"

definition example_Render :: Render where
  "example_Render =
     \<lparr>getXMLHeader = (\<lambda>v. ''<results>''),
      getXMLFooter = (\<lambda>v. ''</results>''),
      toXML = (\<lambda>verb v m. ''<error id='' @ id m @ '' at='' @ locations m @ ''/>''),
      toString = (\<lambda>verb fmt m. locations m @ '' '' @ msg m),
      long_double_percent = (\<lambda>sizedone sizetotal. int (unat sizedone * 100 div unat sizetotal))\<rparr>"

definition example_message :: "string \<Rightarrow> nat \<Rightarrow> ErrorMessage" where
  "example_message file line =
     \<lparr>callStack = [(file, line)], severity = other_severity ''error'', msg = ''Null pointer dereference'',
      id = ''nullPointer'', inconclusive = False\<rparr>"

text \<open>An engine whose state counts the files it was given: it finds ten defects in
  \<open>a.c\<close>, reports one of them, and none elsewhere; \<open>ui.qml\<close> is the one markup
  file; the platform has no thread executor.\<close>

definition example_Engine :: "nat Engine" where
  "example_Engine =
     \<lparr>library_load = (\<lambda>argv0 cfg. True),
      markupFile = (\<lambda>path. path = ''ui.qml''),
      processMarkupAfterCode = (\<lambda>path. True),
      CppCheck_check = (\<lambda>path n.
         if path = ''a.c'' then (10, [ReportErr (example_message path 3)], Suc n) else (0, [], Suc n)),
      checkFunctionUsage = (\<lambda>n. ([], n)),
      tooManyConfigsError = (\<lambda>n. ([], n)),
      getErrorMessages = (\<lambda>n. ([], n)),
      reportUnmatchedSuppressions = (\<lambda>n. []),
      missingIncludeFlag = (\<lambda>n. False),
      missingSystemIncludeFlag = (\<lambda>n. False),
      clearMissingIncludeFlags = (\<lambda>n. n),
      ThreadExecutor_isEnabled = False,
      ThreadExecutor_check = (\<lambda>fs s n. (0, [], n)),
      version = ''1.65'',
      extraVersion = [],
      CFGDIR = None,
      fromNativeSeparators = (\<lambda>path. path),
      getPathFromFilename = (\<lambda>path. [])\<rparr>"

definition example_Settings :: Settings where
  "example_Settings =
     \<lparr>includePaths = [], errorsOnly = False, xml = False, xml_version = 1, verbose = False,
      outputFormat = [], jobs = 1, exitCode = 0, Settings_reportProgress = False,
      exceptionHandling = False, checkConfiguration = False, standards_posix = False,
      isEnabled = (\<lambda>what. False), terminated = False\<rparr>"

text \<open>Path helpers: a path given on the command line is a file of one byte, the extension
  of a path starts at its last dot, and a rule matches the path equal to it.\<close>

fun from_last_dot :: "string \<Rightarrow> string" where
  "from_last_dot [] = []"
| "from_last_dot (c # cs) =
     (if CHR ''.'' \<in> set cs then from_last_dot cs else if c = CHR ''.'' then c # cs else [])"

definition example_PathOps :: PathOps where
  "example_PathOps =
     \<lparr>toNativeSeparators = (\<lambda>path. path),
      isDirectory = (\<lambda>path. True),
      recursiveAddFiles = (\<lambda>fs path. map_assign path 1 fs),
      getFilenameExtension = from_last_dot,
      Match = (\<lambda>masks caseSensitive path. path \<in> set masks),
      WIN32 = False\<rparr>"

definition example_Parser :: "string list \<Rightarrow> string list \<Rightarrow> Parser" where
  "example_Parser pathnames ignored =
     \<lparr>success = True, GetShowVersion = False, GetShowErrorMessages = False,
      ExitAfterPrinting = False, GetPathNames = pathnames, GetIgnoredPaths = ignored\<rparr>"

text \<open>The numbers of Linux, a stack of five frames, no demangler, and the macros as the
  file leaves them.\<close>

definition example_Runtime :: Runtime where
  "example_Runtime =
     \<lparr>signals = \<lparr>SIGBUS = 7, SIGFPE = 8, SIGILL = 4, SIGINT = 2, SIGSEGV = 11,
                 BUS_ADRALN = 1, BUS_ADRERR = 2, BUS_OBJERR = 3,
                 BUS_MCEERR_AR = Some 4, BUS_MCEERR_AO = Some 5,
                 SEGV_MAPERR = 1, SEGV_ACCERR = 2\<rparr>,
      sigcodes = \<lparr>FPE_INTDIV = 1, FPE_INTOVF = 2, FPE_FLTDIV = 3, FPE_FLTOVF = 4,
                  FPE_FLTUND = 5, FPE_FLTRES = 6, FPE_FLTINV = 7, FPE_FLTSUB = 8,
                  ILL_ILLOPC = 1, ILL_ILLOPN = 2, ILL_ILLADR = 3, ILL_ILLTRP = 4,
                  ILL_PRVOPC = 5, ILL_PRVREG = 6, ILL_COPROC = 7, ILL_BADSTK = 8\<rparr>,
      strsignal = (\<lambda>signo. if signo = 11 then ''Segmentation fault'' else ''Unknown signal''),
      print_pointer = (\<lambda>addr. if addr = 0 then ''(nil)'' else ''0x'' @ dec addr),
      sizeof_long = 8,
      return_addresses = [1, 2, 3, 4, 5],
      symbols_allocated = True,
      symbol_of = (\<lambda>addr. ''./cppcheck(_ZN8CppCheck5checkERKSs+0x1a) [0x4a3b2c]''),
      cxa_demangle = (\<lambda>name. None),
      USE_UNIX_SIGNAL_SUPPORT = False\<rparr>"

text \<open>The driver as its constructor leaves it, with the settings and the engine of the
  examples.\<close>

definition example_State :: "nat State" where
  "example_State = CppCheckExecutor example_Settings 0"

text \<open>States for the examples: one file and the exit code 2; four files, one of them
  markup, in structured mode; two files and four jobs.\<close>

definition example_one_file :: "nat State" where
  "example_one_file =
     example_State\<lparr>files := [(''a.c'', 1)], settings := example_Settings\<lparr>exitCode := 2\<rparr>\<rparr>"

definition example_xml_run :: "nat State" where
  "example_xml_run =
     example_State\<lparr>files := [(''a.c'', 1), (''b.c'', 3), (''ui.qml'', 2), (''z.c'', 2)],
                   settings := example_Settings\<lparr>xml := True\<rparr>\<rparr>"


text \<open>An installation without its configuration files, and the driver as constructed
  for a run in structured mode.\<close>

definition example_Engine_without_cfg :: "nat Engine" where
  "example_Engine_without_cfg = example_Engine\<lparr>library_load := (\<lambda>argv0 cfg. False)\<rparr>"

definition example_xml_driver :: "nat State" where
  "example_xml_driver = CppCheckExecutor (example_Settings\<lparr>xml := True\<rparr>) 0"

section \<open>Properties\<close>

subsection \<open>The sink only writes\<close>

lemma bind_err_Inr [simp]: "bind_err (Inr x) f = f x"
  by (simp add: bind_err_def)

lemma bind_err_Inl [simp]: "bind_err (Inl e) f = Inl e"
  by (simp add: bind_err_def)

lemma growsI:
  "settings st' = settings st \<Longrightarrow> files st' = files st \<Longrightarrow> errorlist st' = errorlist st \<Longrightarrow>
   cerr st' = cerr st @ map (\<lambda>s. s @ endl) ws \<Longrightarrow> distinct ws \<Longrightarrow>
   set ws \<inter> errorList st = {} \<Longrightarrow> errorList st' = errorList st \<union> set ws \<Longrightarrow>
   set ws \<subseteq> rendered r st \<Longrightarrow> cout st' = cout st @ os \<Longrightarrow> grows r st st'"
  unfolding grows_def by blast

lemma growsE:
  assumes "grows r st st'"
  obtains ws os where "settings st' = settings st" "files st' = files st"
    "errorlist st' = errorlist st" "cerr st' = cerr st @ map (\<lambda>s. s @ endl) ws" "distinct ws"
    "set ws \<inter> errorList st = {}" "errorList st' = errorList st \<union> set ws"
    "set ws \<subseteq> rendered r st" "cout st' = cout st @ os"
  using assms unfolding grows_def by blast

lemma rendered_cong:
  "settings st' = settings st \<Longrightarrow> errorlist st' = errorlist st \<Longrightarrow> rendered r st' = rendered r st"
  by (simp add: rendered_def)

lemma grows_refl: "grows r st st"
  by (rule growsI [where ws = "[]" and os = "[]"]) simp_all

lemma grows_trans:
  assumes "grows r a b" "grows r b c"
  shows "grows r a c"
proof -
  from assms(1) obtain ws1 os1 where 1: "settings b = settings a" "files b = files a"
    "errorlist b = errorlist a" "cerr b = cerr a @ map (\<lambda>s. s @ endl) ws1" "distinct ws1"
    "set ws1 \<inter> errorList a = {}" "errorList b = errorList a \<union> set ws1"
    "set ws1 \<subseteq> rendered r a" "cout b = cout a @ os1"
    by (rule growsE)
  from assms(2) obtain ws2 os2 where 2: "settings c = settings b" "files c = files b"
    "errorlist c = errorlist b" "cerr c = cerr b @ map (\<lambda>s. s @ endl) ws2" "distinct ws2"
    "set ws2 \<inter> errorList b = {}" "errorList c = errorList b \<union> set ws2"
    "set ws2 \<subseteq> rendered r b" "cout c = cout b @ os2"
    by (rule growsE)
  have rb: "rendered r b = rendered r a" using 1(1,3) by (rule rendered_cong)
  have d: "distinct (ws1 @ ws2)" using 1(5,7) 2(5,6) by auto
  have e: "set (ws1 @ ws2) \<inter> errorList a = {}" using 1(6,7) 2(6) by auto
  have f: "errorList c = errorList a \<union> set (ws1 @ ws2)" using 1(7) 2(7) by (simp add: Un_assoc)
  have g: "set (ws1 @ ws2) \<subseteq> rendered r a" using 1(8) 2(8) rb by simp
  have h: "cerr c = cerr a @ map (\<lambda>s. s @ endl) (ws1 @ ws2)" using 1(4) 2(4) by simp
  have i: "cout c = cout a @ (os1 @ os2)" using 1(9) 2(9) by simp
  show ?thesis
    by (rule growsI [OF _ _ _ h d e f g i]) (simp_all add: 1(1-3) 2(1-3))
qed

lemma grows_cout: "grows r st (st\<lparr>cout := cout st @ os\<rparr>)"
  by (rule growsI [where ws = "[]" and os = os]) simp_all

lemma grows_reportOut: "grows r st (reportOut s st)"
  unfolding reportOut_def by (rule grows_cout)

lemma grows_reportErr: "s \<in> rendered r st \<Longrightarrow> grows r st (reportErr s st)"
proof (cases "s \<in> errorList st")
  case True
  then show ?thesis by (simp add: reportErr_def grows_refl)
next
  case False
  assume "s \<in> rendered r st"
  with False show ?thesis
    by (intro growsI [where ws = "[s]" and os = "[]"]) (simp_all add: reportErr_def)
qed

lemma grows_reportErr_msg: "grows r st (reportErr_msg r m st)"
  unfolding reportErr_msg_def
  by (simp add: grows_reportOut grows_reportErr rendered_def)

lemma grows_reportProgress: "grows r st (reportProgress f stage v t st)"
proof -
  have "grows r st (reportOut s (st\<lparr>time1 := t\<rparr>))" for s
    by (rule growsI [where ws = "[]" and os = "[s @ endl]"]) (simp_all add: reportOut_def)
  then show ?thesis
    by (simp add: reportProgress_def grows_refl)
qed

lemma reportStatus_eq:
  "reportStatus r i n d t st =
     Inr (if 1 < n then st\<lparr>cout := cout st @ [status_line r i n d t]\<rparr> else st)"
  by (simp add: reportStatus_def percent_of_def word_gt_0 status_line_def)


lemma rendered_engine_calls [simp]: "rendered r (st\<lparr>engine := e, calls := cs\<rparr>) = rendered r st"
  by (simp add: rendered_def)

lemma grows_engine_calls [simp]: "grows r (st\<lparr>engine := e, calls := cs\<rparr>) st' = grows r st st'"
  unfolding grows_def by simp

lemma sink_engine_calls [simp]:
  "engine (reportOut s st) = engine st" "calls (reportOut s st) = calls st"
  "engine (reportErr s st) = engine st" "calls (reportErr s st) = calls st"
  "engine (reportErr_msg r m st) = engine st" "calls (reportErr_msg r m st) = calls st"
  "engine (reportInfo r m st) = engine st" "calls (reportInfo r m st) = calls st"
  "engine (reportProgress f stage v t st) = engine st"
  "calls (reportProgress f stage v t st) = calls st"
  by (simp_all add: reportOut_def reportErr_def reportErr_msg_def reportInfo_def reportProgress_def)

lemma reportErr_fields [simp]:
  "settings (reportErr s st) = settings st" "files (reportErr s st) = files st"
  "errorlist (reportErr s st) = errorlist st" "cout (reportErr s st) = cout st"
  by (simp_all add: reportErr_def)

lemma apply_callback_ok:
  "\<exists>st'. apply_callback r c st = Inr st' \<and> grows r st st' \<and> engine st' = engine st \<and> calls st' = calls st"
proof (cases c)
  case (ReportStatus i n d t)
  then show ?thesis
    by (simp add: reportStatus_eq grows_refl grows_cout)
qed (simp_all add: grows_reportOut grows_reportErr_msg reportInfo_def grows_reportProgress)

lemma apply_callbacks_ok:
  "\<exists>st'. apply_callbacks r cs st = Inr st' \<and> grows r st st' \<and> engine st' = engine st \<and> calls st' = calls st"
proof (induction cs arbitrary: st)
  case Nil
  show ?case by (simp add: grows_refl)
next
  case (Cons c cs)
  obtain st1 where 1: "apply_callback r c st = Inr st1" "grows r st st1"
    "engine st1 = engine st" "calls st1 = calls st"
    using apply_callback_ok [of r c st] by blast
  obtain st2 where 2: "apply_callbacks r cs st1 = Inr st2" "grows r st1 st2"
    "engine st2 = engine st1" "calls st2 = calls st1"
    using Cons.IH [of st1] by blast
  have "apply_callbacks r (c # cs) st = Inr st2" using 1(1) 2(1) by simp
  moreover have "grows r st st2" using 1(2) 2(2) by (rule grows_trans)
  ultimately show ?case using 1(3,4) 2(3,4) by simp
qed

lemma engine_call_ok:
  "\<exists>st'. engine_call r what n res st = Inr st' \<and> grows r st st' \<and> engine st' = snd res
     \<and> calls st' = calls st @ [(what, n)]"
proof -
  let ?st0 = "st\<lparr>engine := snd res, calls := calls st @ [(what, n)]\<rparr>"
  obtain st' where 1: "apply_callbacks r (fst res) ?st0 = Inr st'" "grows r ?st0 st'"
    "engine st' = engine ?st0" "calls st' = calls ?st0"
    using apply_callbacks_ok [of r "fst res" ?st0] by blast
  have "grows r st st'" using 1(2) by simp
  then show ?thesis using 1(1,3,4) by (simp add: engine_call_def)
qed

lemma cppcheck_check_ok:
  "\<exists>n st'. cppcheck_check r g path st = Inr (n, st') \<and> grows r st st'
     \<and> calls st' = calls st @ [(Check path, n)]"
proof -
  obtain n res where c: "CppCheck_check g path (engine st) = (n, res)" by (cases "CppCheck_check g path (engine st)")
  obtain st' where 1: "engine_call r (Check path) n res st = Inr st'" "grows r st st'"
    "calls st' = calls st @ [(Check path, n)]"
    using engine_call_ok [of r "Check path" n res st] by blast
  have "cppcheck_check r g path st = Inr (n, st')" using c 1(1) by (simp add: cppcheck_check_def)
  then show ?thesis using 1(2,3) by blast
qed

lemma check_file_ok:
  "\<exists>n st'. check_file r g tot i (rv, ps, c, st) = Inr (rv + n, ps + snd i, c + 1, st')
     \<and> grows r st st' \<and> calls st' = calls st @ [(Check (fst i), n)]"
proof -
  obtain n st1 where 1: "cppcheck_check r g (fst i) st = Inr (n, st1)" "grows r st st1"
    "calls st1 = calls st @ [(Check (fst i), n)]"
    using cppcheck_check_ok [of r g "fst i" st] by blast
  let ?st2 = "if \<not> errorsOnly (settings st1) \<and> 1 < (of_nat (length (files st1)) :: size_t)
              then st1\<lparr>cout := cout st1 @ [status_line r (ucast (c + 1)) (of_nat (length (files st1))) (ps + snd i) tot]\<rparr>
              else st1"
  have "check_file r g tot i (rv, ps, c, st) = Inr (rv + n, ps + snd i, c + 1, ?st2)"
    using 1(1) by (simp add: check_file_def reportStatus_eq)
  moreover have "grows r st1 ?st2" by (simp add: grows_refl grows_cout)
  then have "grows r st ?st2" using 1(2) grows_trans by blast
  moreover have "calls ?st2 = calls st @ [(Check (fst i), n)]" using 1(3) by simp
  ultimately show ?thesis by blast
qed


lemma first_loop_ok:
  "\<exists>rv' ps' c' st' L. first_loop r g tot fs (rv, ps, c, st) = Inr (rv', ps', c', st')
     \<and> grows r st st' \<and> calls st' = calls st @ L
     \<and> map fst L = map Check (filter (\<lambda>p. \<not> after_code g p) (map fst fs))
     \<and> rv' = rv + sum_list (map snd L)"
proof (induction fs arbitrary: rv ps c st)
  case Nil
  have "first_loop r g tot [] (rv, ps, c, st) = Inr (rv, ps, c, st) \<and> grows r st st
    \<and> calls st = calls st @ [] \<and> map fst ([] :: (engine_call \<times> unsigned_int) list) = map Check (filter (\<lambda>p. \<not> after_code g p) (map fst []))
    \<and> rv = rv + sum_list (map snd ([] :: (engine_call \<times> unsigned_int) list))"
    by (simp add: grows_refl)
  then show ?case by blast
next
  case (Cons i fs)
  show ?case
  proof (cases "after_code g (fst i)")
    case True
    then have "first_loop r g tot (i # fs) (rv, ps, c, st) = first_loop r g tot fs (rv, ps, c, st)"
      by (simp add: after_code_def)
    moreover have "filter (\<lambda>p. \<not> after_code g p) (map fst (i # fs)) = filter (\<lambda>p. \<not> after_code g p) (map fst fs)"
      using True by simp
    ultimately show ?thesis using Cons.IH [of rv ps c st] by simp
  next
    case False
    obtain n st1 where 1: "check_file r g tot i (rv, ps, c, st) = Inr (rv + n, ps + snd i, c + 1, st1)"
      "grows r st st1" "calls st1 = calls st @ [(Check (fst i), n)]"
      using check_file_ok [of r g tot i rv ps c st] by blast
    obtain rv' ps' c' st' L where 2:
      "first_loop r g tot fs (rv + n, ps + snd i, c + 1, st1) = Inr (rv', ps', c', st')"
      "grows r st1 st'" "calls st' = calls st1 @ L"
      "map fst L = map Check (filter (\<lambda>p. \<not> after_code g p) (map fst fs))"
      "rv' = rv + n + sum_list (map snd L)"
      using Cons.IH [of "rv + n" "ps + snd i" "c + 1" st1] by blast
    have a: "first_loop r g tot (i # fs) (rv, ps, c, st) = Inr (rv', ps', c', st')"
      using False 1(1) 2(1) by (simp add: after_code_def)
    have b: "grows r st st'" using 1(2) 2(2) by (rule grows_trans)
    have c: "calls st' = calls st @ ((Check (fst i), n) # L)" using 1(3) 2(3) by simp
    have d: "map fst ((Check (fst i), n) # L) = map Check (filter (\<lambda>p. \<not> after_code g p) (map fst (i # fs)))"
      using False 2(4) by simp
    have e: "rv' = rv + sum_list (map snd ((Check (fst i), n) # L))"
      using 2(5) by (simp add: add.assoc)
    show ?thesis using a b c d e by blast
  qed
qed

lemma second_loop_ok:
  "\<exists>rv' ps' c' st' L. second_loop r g tot fs (rv, ps, c, st) = Inr (rv', ps', c', st')
     \<and> grows r st st' \<and> calls st' = calls st @ L
     \<and> map fst L = map Check (filter (after_code g) (map fst fs))
     \<and> rv' = rv + sum_list (map snd L)"
proof (induction fs arbitrary: rv ps c st)
  case Nil
  have "second_loop r g tot [] (rv, ps, c, st) = Inr (rv, ps, c, st) \<and> grows r st st
    \<and> calls st = calls st @ [] \<and> map fst ([] :: (engine_call \<times> unsigned_int) list) = map Check (filter (after_code g) (map fst []))
    \<and> rv = rv + sum_list (map snd ([] :: (engine_call \<times> unsigned_int) list))"
    by (simp add: grows_refl)
  then show ?case by blast
next
  case (Cons i fs)
  show ?case
  proof (cases "after_code g (fst i)")
    case False
    then have "second_loop r g tot (i # fs) (rv, ps, c, st) = second_loop r g tot fs (rv, ps, c, st)"
      by (auto simp: after_code_def)
    moreover have "filter (after_code g) (map fst (i # fs)) = filter (after_code g) (map fst fs)"
      using False by simp
    ultimately show ?thesis using Cons.IH [of rv ps c st] by simp
  next
    case True
    obtain n st1 where 1: "check_file r g tot i (rv, ps, c, st) = Inr (rv + n, ps + snd i, c + 1, st1)"
      "grows r st st1" "calls st1 = calls st @ [(Check (fst i), n)]"
      using check_file_ok [of r g tot i rv ps c st] by blast
    obtain rv' ps' c' st' L where 2:
      "second_loop r g tot fs (rv + n, ps + snd i, c + 1, st1) = Inr (rv', ps', c', st')"
      "grows r st1 st'" "calls st' = calls st1 @ L"
      "map fst L = map Check (filter (after_code g) (map fst fs))"
      "rv' = rv + n + sum_list (map snd L)"
      using Cons.IH [of "rv + n" "ps + snd i" "c + 1" st1] by blast
    have a: "second_loop r g tot (i # fs) (rv, ps, c, st) = Inr (rv', ps', c', st')"
      using True 1(1) 2(1) by (simp add: after_code_def)
    have b: "grows r st st'" using 1(2) 2(2) by (rule grows_trans)
    have c: "calls st' = calls st @ ((Check (fst i), n) # L)" using 1(3) 2(3) by simp
    have d: "map fst ((Check (fst i), n) # L) = map Check (filter (after_code g) (map fst (i # fs)))"
      using True 2(4) by simp
    have e: "rv' = rv + sum_list (map snd ((Check (fst i), n) # L))"
      using 2(5) by (simp add: add.assoc)
    show ?thesis using a b c d e by blast
  qed
qed


lemma dispatch_sequential:
  assumes "jobs (settings st) = 1"
  shows "\<exists>rv st' L. check_internal_dispatch r g st = Inr (rv, st') \<and> grows r st st'
     \<and> calls st' = calls st @ L
     \<and> map fst L = map Check (filter (\<lambda>p. \<not> after_code g p) (map fst (files st))
                               @ filter (after_code g) (map fst (files st))) @ [CheckFunctionUsage]
     \<and> rv = sum_list (map snd L)"
proof -
  let ?tot = "totalfilesize_loop (files st) 0"
  obtain rv1 ps1 c1 st1 L1 where 1:
    "first_loop r g ?tot (files st) (0, 0, 0, st) = Inr (rv1, ps1, c1, st1)"
    "grows r st st1" "calls st1 = calls st @ L1"
    "map fst L1 = map Check (filter (\<lambda>p. \<not> after_code g p) (map fst (files st)))"
    "rv1 = 0 + sum_list (map snd L1)"
    using first_loop_ok [of r g ?tot "files st" 0 0 0 st] by blast
  obtain rv2 ps2 c2 st2 L2 where 2:
    "second_loop r g ?tot (files st) (rv1, ps1, c1, st1) = Inr (rv2, ps2, c2, st2)"
    "grows r st1 st2" "calls st2 = calls st1 @ L2"
    "map fst L2 = map Check (filter (after_code g) (map fst (files st)))"
    "rv2 = rv1 + sum_list (map snd L2)"
    using second_loop_ok [of r g ?tot "files st" rv1 ps1 c1 st1] by blast
  obtain st3 where 3:
    "engine_call r CheckFunctionUsage 0 (checkFunctionUsage g (engine st2)) st2 = Inr st3"
    "grows r st2 st3" "calls st3 = calls st2 @ [(CheckFunctionUsage, 0)]"
    using engine_call_ok [of r CheckFunctionUsage 0 "checkFunctionUsage g (engine st2)" st2] by blast
  let ?L = "L1 @ L2 @ [(CheckFunctionUsage, 0)]"
  have a: "check_internal_dispatch r g st = Inr (rv2, st3)"
    using assms 1(1) 2(1) 3(1) by (simp add: check_internal_dispatch_def)
  have b: "grows r st st3" using 1(2) 2(2) 3(2) grows_trans by blast
  have c: "calls st3 = calls st @ ?L" using 1(3) 2(3) 3(3) by simp
  have d: "map fst ?L = map Check (filter (\<lambda>p. \<not> after_code g p) (map fst (files st))
                               @ filter (after_code g) (map fst (files st))) @ [CheckFunctionUsage]"
    using 1(4) 2(4) by simp
  have e: "rv2 = sum_list (map snd ?L)" using 1(5) 2(5) by simp
  show ?thesis using a b c d e by blast
qed

lemma dispatch_no_threads:
  assumes "jobs (settings st) \<noteq> 1" "\<not> ThreadExecutor_isEnabled g"
  shows "check_internal_dispatch r g st = Inr (0, st\<lparr>cout := cout st @ [no_threads_line]\<rparr>)"
  using assms by (simp add: check_internal_dispatch_def no_threads_line_def)

lemma dispatch_threads:
  assumes "jobs (settings st) \<noteq> 1" "ThreadExecutor_isEnabled g"
  shows "\<exists>n st'. check_internal_dispatch r g st = Inr (n, st') \<and> grows r st st'
     \<and> calls st' = calls st @ [(ExecutorCheck, n)]"
proof -
  obtain n res where c: "ThreadExecutor_check g (files st) (settings st) (engine st) = (n, res)"
    by (cases "ThreadExecutor_check g (files st) (settings st) (engine st)")
  obtain st' where 1: "engine_call r ExecutorCheck n res st = Inr st'" "grows r st st'"
    "calls st' = calls st @ [(ExecutorCheck, n)]"
    using engine_call_ok [of r ExecutorCheck n res st] by blast
  have "check_internal_dispatch r g st = Inr (n, st')"
    using assms c 1(1) by (simp add: check_internal_dispatch_def)
  then show ?thesis using 1(2,3) by blast
qed

lemma dispatch_ok:
  "\<exists>rv st' L. check_internal_dispatch r g st = Inr (rv, st') \<and> grows r st st'
     \<and> calls st' = calls st @ L \<and> rv = sum_list (map snd L)"
proof (cases "jobs (settings st) = 1")
  case True
  then show ?thesis using dispatch_sequential [of st r g] by blast
next
  case False
  show ?thesis
  proof (cases "ThreadExecutor_isEnabled g")
    case True
    obtain n st' where 1: "check_internal_dispatch r g st = Inr (n, st')" "grows r st st'"
      "calls st' = calls st @ [(ExecutorCheck, n)]"
      using dispatch_threads [OF False True, of r] by blast
    have "n = sum_list (map snd [(ExecutorCheck, n)])" by simp
    then show ?thesis using 1 by blast
  next
    case F: False
    let ?st' = "st\<lparr>cout := cout st @ [no_threads_line]\<rparr>"
    have "check_internal_dispatch r g st = Inr (0, ?st')"
      using False F by (rule dispatch_no_threads)
    moreover have "grows r st ?st'" by (rule grows_cout)
    moreover have "calls ?st' = calls st @ []" by simp
    moreover have "(0 :: unsigned_int) = sum_list (map snd ([] :: (engine_call \<times> unsigned_int) list))" by simp
    ultimately show ?thesis by blast
  qed
qed

lemma reports_ok:
  "\<exists>st'. check_internal_reports r g st = Inr st' \<and> grows r st st'
     \<and> calls st' = calls st @ (if checkConfiguration (settings st) then [] else [(TooManyConfigsError, 0)])"
proof -
  let ?b = "isEnabled (settings st) ''information'' \<or> checkConfiguration (settings st)"
  obtain st1 where 1:
    "(if ?b then apply_callbacks r (reportUnmatchedSuppressions g (engine st)) st else Inr st) = Inr st1"
    "grows r st st1" "engine st1 = engine st" "calls st1 = calls st"
  proof (cases ?b)
    case True
    then show ?thesis using that apply_callbacks_ok [of r "reportUnmatchedSuppressions g (engine st)" st]
      by auto
  next
    case False
    then show ?thesis using that [of st] by (simp add: grows_refl)
  qed
  have s1: "settings st1 = settings st" using 1(2) by (rule growsE)
  show ?thesis
  proof (cases "checkConfiguration (settings st)")
    case True
    then have "check_internal_reports r g st = Inr st1"
      using 1(1) s1 by (simp add: check_internal_reports_def)
    then show ?thesis using True 1(2,4) by simp
  next
    case False
    obtain st2 where 2:
      "engine_call r TooManyConfigsError 0 (tooManyConfigsError g (engine st1)) st1 = Inr st2"
      "grows r st1 st2" "calls st2 = calls st1 @ [(TooManyConfigsError, 0)]"
      using engine_call_ok [of r TooManyConfigsError 0 "tooManyConfigsError g (engine st1)" st1] by blast
    let ?c = "isEnabled (settings st2) ''missingInclude''
          \<and> (missingIncludeFlag g (engine st2) \<or> missingSystemIncludeFlag g (engine st2))"
    let ?st3 = "if ?c then reportInfo r (missingInclude_message (missingIncludeFlag g (engine st2))) st2 else st2"
    have eq: "(if b then Inr x else Inr y) = (Inr (if b then x else y) :: error + 'a State)" for b x y
      by simp
    have "check_internal_reports r g st = Inr ?st3"
      using False 1(1) s1 2(1) by (simp add: check_internal_reports_def eq split del: if_split)
    moreover have "grows r st2 ?st3" by (simp add: grows_refl reportInfo_def grows_reportErr_msg)
    then have "grows r st ?st3" using 1(2) 2(2) grows_trans by blast
    moreover have "calls ?st3 = calls st @ [(TooManyConfigsError, 0)]" using 1(4) 2(3) by simp
    ultimately show ?thesis using False by simp
  qed
qed

lemma with_header_fields [simp]:
  "settings (with_header r now st) = settings st" "files (with_header r now st) = files st"
  "errorlist (with_header r now st) = errorlist st" "calls (with_header r now st) = calls st"
  "cout (with_header r now st) = cout st" "engine (with_header r now st) = engine st"
  by (simp_all add: with_header_def reportErr_def Let_def)

lemma with_footer_fields [simp]:
  "settings (with_footer r st) = settings st" "files (with_footer r st) = files st"
  "errorlist (with_footer r st) = errorlist st" "calls (with_footer r st) = calls st"
  "cout (with_footer r st) = cout st" "engine (with_footer r st) = engine st"
  by (simp_all add: with_footer_def reportErr_def)

lemma check_internal_run:
  assumes "libraries_loaded g argv0 (settings st)"
  obtains rv st3 st4 L where
    "check_internal_dispatch r g (with_header r now st) = Inr (rv, st3)"
    "check_internal_reports r g st3 = Inr st4"
    "grows r (with_header r now st) st3" "grows r st3 st4"
    "calls st3 = calls st @ L" "rv = sum_list (map snd L)"
    "calls st4 = calls st3 @ (if checkConfiguration (settings st) then [] else [(TooManyConfigsError, 0)])"
    "check_internal r g argv0 now st
       = Inr (if rv \<noteq> 0 then exitCode (settings st) else 0, with_footer r st4)"
proof -
  let ?st2 = "with_header r now st"
  obtain rv st3 L where 1: "check_internal_dispatch r g ?st2 = Inr (rv, st3)" "grows r ?st2 st3"
    "calls st3 = calls ?st2 @ L" "rv = sum_list (map snd L)"
    using dispatch_ok [of r g ?st2] by blast
  obtain st4 where 2: "check_internal_reports r g st3 = Inr st4" "grows r st3 st4"
    "calls st4 = calls st3 @ (if checkConfiguration (settings st3) then [] else [(TooManyConfigsError, 0)])"
    using reports_ok [of r g st3] by blast
  have s3: "settings st3 = settings st" using 1(2) by (rule growsE) simp
  have "settings st4 = settings st3" using 2(2) by (rule growsE)
  then have s4: "settings st4 = settings st" using s3 by simp
  have a: "check_internal r g argv0 now st
         = Inr (if rv \<noteq> 0 then exitCode (settings st) else 0, with_footer r st4)"
    using assms 1(1) 2(1) s4
    by (simp add: check_internal_def libraries_loaded_def with_header_def with_footer_def Let_def)
  have b: "calls st3 = calls st @ L" using 1(3) by simp
  have c: "calls st4 = calls st3 @ (if checkConfiguration (settings st) then [] else [(TooManyConfigsError, 0)])"
    using 2(3) s3 by simp
  show thesis using 1(1) 2(1) 1(2) 2(2) b 1(4) c a by (rule that)
qed

subsection \<open>The error stream holds no text twice\<close>

lemma sink_inv_new: "sink_inv (CppCheckExecutor s e)"
  by (simp add: sink_inv_def CppCheckExecutor_def)

lemma sink_inv_reportErr: "sink_inv st \<Longrightarrow> sink_inv (reportErr errmsg st)"
  by (auto simp: sink_inv_def reportErr_def)

lemma sink_inv_grows:
  assumes "grows r st st'" "sink_inv st"
  shows "sink_inv st'"
proof -
  from assms(1) obtain ws os where g: "cerr st' = cerr st @ map (\<lambda>s. s @ endl) ws" "distinct ws"
    "set ws \<inter> errorList st = {}" "errorList st' = errorList st \<union> set ws"
    by (rule growsE)
  have inj: "inj_on (\<lambda>s. s @ endl) A" for A :: "string set"
    by (simp add: inj_on_def)
  have d1: "distinct (map (\<lambda>s. s @ endl) ws)" using g(2) by (simp add: distinct_map inj)
  have d2: "set (cerr st) \<inter> set (map (\<lambda>s. s @ endl) ws) = {}"
    using assms(2) g(3) by (auto simp: sink_inv_def)
  have "distinct (cerr st')" using assms(2) d1 d2 g(1) by (simp add: sink_inv_def)
  moreover have "set (cerr st') = (\<lambda>s. s @ endl) ` errorList st'"
    using assms(2) g(1,4) by (simp add: sink_inv_def image_Un)
  ultimately show ?thesis by (simp add: sink_inv_def)
qed

lemma sink_inv_time1 [simp]: "sink_inv (st\<lparr>time1 := t\<rparr>) = sink_inv st"
  by (simp add: sink_inv_def)

lemma sink_inv_with_header: "sink_inv st \<Longrightarrow> sink_inv (with_header r now st)"
  by (simp add: with_header_def Let_def sink_inv_reportErr)

lemma sink_inv_with_footer: "sink_inv st \<Longrightarrow> sink_inv (with_footer r st)"
  by (simp add: with_footer_def sink_inv_reportErr)

lemma check_internal_not_loaded:
  "\<not> libraries_loaded g argv0 (settings st) \<Longrightarrow>
   check_internal r g argv0 now st
     = Inr (EXIT_FAILURE, reportErr_msg r (failedToLoadCfg_message g argv0 (library_load g argv0 ''std.cfg'')) st)"
  by (auto simp: check_internal_def libraries_loaded_def Let_def)

lemma check_internal_sink_inv:
  assumes "sink_inv st"
  shows "\<exists>status st'. check_internal r g argv0 now st = Inr (status, st') \<and> sink_inv st'"
proof (cases "libraries_loaded g argv0 (settings st)")
  case False
  have "sink_inv (reportErr_msg r m st)" for m
    using grows_reportErr_msg assms by (rule sink_inv_grows)
  then show ?thesis using check_internal_not_loaded [OF False] by simp
next
  case True
  obtain rv st3 st4 L where
    "check_internal_dispatch r g (with_header r now st) = Inr (rv, st3)"
    "check_internal_reports r g st3 = Inr st4"
    and 1: "grows r (with_header r now st) st3" "grows r st3 st4"
    and "calls st3 = calls st @ L" "rv = sum_list (map snd L)"
    "calls st4 = calls st3 @ (if checkConfiguration (settings st) then [] else [(TooManyConfigsError, 0)])"
    and 3: "check_internal r g argv0 now st
         = Inr (if rv \<noteq> 0 then exitCode (settings st) else 0, with_footer r st4)"
    using True by (rule check_internal_run)
  have "sink_inv (with_header r now st)" using assms by (rule sink_inv_with_header)
  with 1(1) have "sink_inv st3" by (rule sink_inv_grows)
  with 1(2) have "sink_inv st4" by (rule sink_inv_grows)
  then have "sink_inv (with_footer r st4)" by (rule sink_inv_with_footer)
  then show ?thesis using 3 by simp
qed

text \<open>
  C5. Within a run a diagnostic whose rendered text was already written is dropped without
  a trace, so no text stands twice on the error stream, and texts that differ are each
  written. A text that \<^verbatim>\<open>_errorList\<close> holds leaves the state as it is; a text it does
  not hold is appended to the stream and entered. The constructor, \<^verbatim>\<open>reportErr\<close>, every
  sequence of calls back into the sink and the whole of \<^verbatim>\<open>check_internal\<close> keep the
  lines of the stream distinct and equal to the texts of \<^verbatim>\<open>_errorList\<close>. The same text
  twice gives one line, two different texts give two.
\<close>
theorem reportErr_writes_each_text_once:
  "(errmsg \<in> errorList st \<longrightarrow> reportErr errmsg st = st) \<and>
   (errmsg \<notin> errorList st \<longrightarrow>
      cerr (reportErr errmsg st) = cerr st @ [errmsg @ endl] \<and> errmsg \<in> errorList (reportErr errmsg st)) \<and>
   sink_inv (CppCheckExecutor s e :: 'e State) \<and>
   (sink_inv st \<longrightarrow> sink_inv (reportErr errmsg st)) \<and>
   (sink_inv st \<longrightarrow> (\<exists>st'. apply_callbacks r cbs st = Inr st' \<and> sink_inv st')) \<and>
   (sink_inv st \<longrightarrow> (\<exists>status st'. check_internal r g argv0 now st = Inr (status, st') \<and> sink_inv st')) \<and>
   cerr (reportErr a (reportErr a (CppCheckExecutor s e :: 'e State))) = [a @ endl] \<and>
   (a \<noteq> b \<longrightarrow> cerr (reportErr b (reportErr a (CppCheckExecutor s e :: 'e State))) = [a @ endl, b @ endl])"
proof -
  have 1: "errmsg \<in> errorList st \<longrightarrow> reportErr errmsg st = st"
    by (simp add: reportErr_def)
  have 2: "errmsg \<notin> errorList st \<longrightarrow>
      cerr (reportErr errmsg st) = cerr st @ [errmsg @ endl] \<and> errmsg \<in> errorList (reportErr errmsg st)"
    by (simp add: reportErr_def)
  have 3: "sink_inv st \<longrightarrow> (\<exists>st'. apply_callbacks r cbs st = Inr st' \<and> sink_inv st')"
    using apply_callbacks_ok [of r cbs st] sink_inv_grows by blast
  have 4: "cerr (reportErr a (reportErr a (CppCheckExecutor s e :: 'e State))) = [a @ endl]"
    by (simp add: reportErr_def CppCheckExecutor_def)
  have 5: "a \<noteq> b \<longrightarrow> cerr (reportErr b (reportErr a (CppCheckExecutor s e :: 'e State))) = [a @ endl, b @ endl]"
    by (simp add: reportErr_def CppCheckExecutor_def)
  have 6: "sink_inv st \<longrightarrow> sink_inv (reportErr errmsg st)"
    by (simp add: sink_inv_reportErr)
  have 7: "sink_inv st \<longrightarrow> (\<exists>status st'. check_internal r g argv0 now st = Inr (status, st') \<and> sink_inv st')"
    using check_internal_sink_inv [of st r g argv0 now] by blast
  show ?thesis
    by (intro conjI 1 2 3 4 5 6 7 sink_inv_new)
qed

theorem reportErr_writes_each_text_once_witness:
  "''a'' \<in> errorList (reportErr ''a'' example_State) \<and>
   reportErr ''a'' (reportErr ''a'' example_State) = reportErr ''a'' example_State \<and>
   ''b'' \<notin> errorList (reportErr ''a'' example_State) \<and>
   cerr (reportErr ''b'' (reportErr ''a'' example_State)) = [''a'' @ endl, ''b'' @ endl] \<and>
   sink_inv (reportErr ''a'' example_State) \<and>
   sink_inv (reportErr ''b'' (reportErr ''a'' example_State)) \<and>
   (\<exists>st'. apply_callbacks example_Render
            [ReportErr (example_message ''a.c'' 3), ReportErr (example_message ''a.c'' 3)]
            (reportErr ''a'' example_State) = Inr st' \<and> sink_inv st') \<and>
   (\<exists>status st'. check_internal example_Render example_Engine ''cppcheck'' 0
                   (reportErr ''a'' example_State) = Inr (status, st') \<and> sink_inv st') \<and>
   ''a'' \<noteq> ''b''"
proof -
  let ?st1 = "reportErr ''a'' example_State"
  have m: "''a'' \<in> errorList ?st1"
    by (simp add: reportErr_def example_State_def CppCheckExecutor_def)
  have n: "''b'' \<notin> errorList ?st1"
    by (simp add: reportErr_def example_State_def CppCheckExecutor_def)
  have i: "sink_inv ?st1"
    by (simp add: sink_inv_def reportErr_def example_State_def CppCheckExecutor_def)
  have c: "cerr ?st1 = [''a'' @ endl]"
    by (simp add: reportErr_def example_State_def CppCheckExecutor_def)
  have d: "''a'' \<noteq> ''b''" by simp
  note A = reportErr_writes_each_text_once [where errmsg = "''a''" and st = ?st1
      and r = example_Render and g = example_Engine and ?argv0.0 = "''cppcheck''" and now = 0
      and cbs = "[ReportErr (example_message ''a.c'' 3), ReportErr (example_message ''a.c'' 3)]"
      and a = "''a''" and b = "''b''" and s = example_Settings and e = "0::nat"]
  note B = reportErr_writes_each_text_once [where errmsg = "''b''" and st = ?st1
      and r = example_Render and g = example_Engine and ?argv0.0 = "''cppcheck''" and now = 0
      and cbs = "[]" and a = "''a''" and b = "''b''" and s = example_Settings and e = "0::nat"]
  have 1: "reportErr ''a'' ?st1 = ?st1" using A m by blast
  have 2: "cerr (reportErr ''b'' ?st1) = [''a'' @ endl, ''b'' @ endl]" using B n c by simp
  have 3: "sink_inv (reportErr ''b'' ?st1)" using B i by blast
  have 4: "\<exists>st'. apply_callbacks example_Render
            [ReportErr (example_message ''a.c'' 3), ReportErr (example_message ''a.c'' 3)]
            ?st1 = Inr st' \<and> sink_inv st'" using A i by blast
  have 5: "\<exists>status st'. check_internal example_Render example_Engine ''cppcheck'' 0 ?st1
             = Inr (status, st') \<and> sink_inv st'" using A i by blast
  show ?thesis by (intro conjI m n i d 1 2 3 4 5)
qed

subsection \<open>Reading the arguments writes nothing to the error stream\<close>

lemma grows_errorlist_keeps_error_stream:
  assumes "grows r st st'" "errorlist st"
  shows "cerr st' = cerr st \<and> errorList st' = errorList st"
proof -
  from assms(1) obtain ws where c: "cerr st' = cerr st @ map (\<lambda>s. s @ endl) ws"
    and e: "errorList st' = errorList st \<union> set ws" and s: "set ws \<subseteq> rendered r st"
    by (rule growsE)
  have "rendered r st = {}" using assms(2) by (simp add: rendered_def)
  with s have "ws = []" by simp
  with c e show ?thesis by simp
qed

lemma includePaths_loop_keeps_error_stream:
  "includePaths_loop p xs st = (kept, st') \<Longrightarrow> cerr st' = cerr st \<and> errorList st' = errorList st"
proof (induction xs arbitrary: st kept st')
  case Nil
  then show ?case by simp
next
  case (Cons x xs)
  show ?case
  proof (cases "isDirectory p (toNativeSeparators p x)")
    case True
    obtain k s where r: "includePaths_loop p xs st = (k, s)" by (cases "includePaths_loop p xs st")
    with True Cons.prems have "st' = s" by (simp add: Let_def)
    with Cons.IH [OF r] show ?thesis by simp
  next
    case False
    let ?st = "if \<not> errorsOnly (settings st)
           then st\<lparr>cout := cout st @
             [''cppcheck: warning: Couldn'' @ [CHR 0x27] @ ''t find path given by -I ''
               @ [CHR 0x27] @ toNativeSeparators p x @ [CHR 0x27] @ endl]\<rparr>
           else st"
    from False Cons.prems have "includePaths_loop p xs ?st = (kept, st')" by (simp add: Let_def)
    from Cons.IH [OF this] show ?thesis by simp
  qed
qed

lemma engine_call_errorlist_keeps_error_stream:
  assumes "engine_call r what n res st = Inr st'" "errorlist st"
  shows "cerr st' = cerr st \<and> errorList st' = errorList st"
proof -
  obtain st2 where "engine_call r what n res st = Inr st2" and g: "grows r st st2"
    using engine_call_ok [of r what n res st] by blast
  with assms(1) have "st2 = st'" by simp
  with g assms(2) show ?thesis using grows_errorlist_keeps_error_stream by blast
qed

lemma parseFromArgs_files_keeps_error_stream:
  "parseFromArgs_files p parser st = (ok, st') \<Longrightarrow>
   cerr st' = cerr st \<and> errorList st' = errorList st"
  by (auto simp: parseFromArgs_files_def Let_def split: prod.splits if_splits)

lemma parseFromArgs_keeps_error_stream:
  assumes "parseFromArgs r g p parser st = Inr (ok, st')"
  shows "cerr st' = cerr st \<and> errorList st' = errorList st"
proof (cases "success parser")
  case False
  with assms show ?thesis by (simp add: parseFromArgs_def)
next
  case True
  define st1 where "st1 = (if GetShowVersion parser \<and> \<not> GetShowErrorMessages parser then
                     (if extraVersion g \<noteq> []
                      then st\<lparr>cout := cout st @
                        [''Cppcheck '' @ version g @ '' ('' @ extraVersion g @ '')'' @ endl]\<rparr>
                      else st\<lparr>cout := cout st @ [''Cppcheck '' @ version g @ endl]\<rparr>)
                   else st)"
  have s1: "cerr st1 = cerr st \<and> errorList st1 = errorList st" by (simp add: st1_def)
  define m where "m = (if GetShowErrorMessages parser then
                bind_err (engine_call r GetErrorMessages 0 (getErrorMessages g (engine st1))
                            (st1\<lparr>errorlist := True,
                                 cout := cout st1 @ [getXMLHeader r (xml_version (settings st1))]\<rparr>))
                  (\<lambda>st2. Inr (st2\<lparr>cout := cout st2 @
                                 [getXMLFooter r (xml_version (settings st2)) @ endl]\<rparr>))
              else Inr st1)"
  define k where "k = (\<lambda>st3.
                if ExitAfterPrinting parser
                then Inr (True, st3\<lparr>settings := (settings st3)\<lparr>terminated := True\<rparr>\<rparr>)
                else
                  (case includePaths_loop p (includePaths (settings st3)) st3 of (kept, st4) \<Rightarrow>
                     let st5 = st4\<lparr>settings := (settings st4)\<lparr>includePaths := kept\<rparr>\<rparr>;
                         st6 = (if GetPathNames parser \<noteq> []
                                then st5\<lparr>files := recursiveAddFiles_loop p (GetPathNames parser) (files st5)\<rparr>
                                else st5)
                     in (Inr (parseFromArgs_files p parser st6) :: error + bool \<times> 'a State)))"
  have p: "parseFromArgs r g p parser st = bind_err m k"
    using True by (simp add: parseFromArgs_def m_def k_def st1_def Let_def)
  obtain st3 where m3: "m = Inr st3" and r3: "k st3 = Inr (ok, st')"
    using assms p by (cases m) simp_all
  have s3: "cerr st3 = cerr st \<and> errorList st3 = errorList st"
  proof (cases "GetShowErrorMessages parser")
    case False
    with m3 have "st3 = st1" by (simp add: m_def)
    with s1 show ?thesis by simp
  next
    case T: True
    let ?st0 = "st1\<lparr>errorlist := True,
                    cout := cout st1 @ [getXMLHeader r (xml_version (settings st1))]\<rparr>"
    obtain st2 where 2: "engine_call r GetErrorMessages 0 (getErrorMessages g (engine st1)) ?st0 = Inr st2"
      using engine_call_ok [of r GetErrorMessages 0 "getErrorMessages g (engine st1)" ?st0] by blast
    have "cerr st2 = cerr ?st0 \<and> errorList st2 = errorList ?st0"
      using 2 by (rule engine_call_errorlist_keeps_error_stream) simp
    moreover have "st3 = st2\<lparr>cout := cout st2 @ [getXMLFooter r (xml_version (settings st2)) @ endl]\<rparr>"
      using m3 T 2 by (simp add: m_def)
    ultimately show ?thesis using s1 by simp
  qed
  show ?thesis
  proof (cases "ExitAfterPrinting parser")
    case True
    with r3 have "st' = st3\<lparr>settings := (settings st3)\<lparr>terminated := True\<rparr>\<rparr>"
      by (simp add: k_def)
    with s3 show ?thesis by simp
  next
    case False
    obtain kept st4 where l: "includePaths_loop p (includePaths (settings st3)) st3 = (kept, st4)"
      by (cases "includePaths_loop p (includePaths (settings st3)) st3")
    have s4: "cerr st4 = cerr st \<and> errorList st4 = errorList st"
      using includePaths_loop_keeps_error_stream [OF l] s3 by simp
    define st6 where "st6 = (let st5 = st4\<lparr>settings := (settings st4)\<lparr>includePaths := kept\<rparr>\<rparr>
       in if GetPathNames parser \<noteq> []
          then st5\<lparr>files := recursiveAddFiles_loop p (GetPathNames parser) (files st5)\<rparr>
          else st5)"
    have s6: "cerr st6 = cerr st \<and> errorList st6 = errorList st"
      using s4 by (simp add: st6_def Let_def)
    have "parseFromArgs_files p parser st6 = (ok, st')"
      using r3 False l by (simp add: k_def st6_def Let_def)
    from parseFromArgs_files_keeps_error_stream [OF this] s6 show ?thesis by simp
  qed
qed

lemma check_enters_check_internal_with_the_error_stream_untouched:
  assumes "parseFromArgs r g p parser (st\<lparr>engine := clearMissingIncludeFlags g (engine st)\<rparr>)
             = Inr (True, st1)" "\<not> terminated (settings st1)"
  shows "check r g p parser argv0 now st = check_internal r g argv0 now st1 \<and>
         cerr st1 = cerr st \<and> errorList st1 = errorList st"
proof -
  have "check r g p parser argv0 now st = check_internal r g argv0 now st1"
    using assms by (simp add: check_def check_wrapper_def)
  moreover have "cerr st1 = cerr st \<and> errorList st1 = errorList st"
    using parseFromArgs_keeps_error_stream [OF assms(1)] by simp
  ultimately show ?thesis by simp
qed


subsection \<open>Facts for the examples and the call log\<close>

lemmas example_defs = example_State_def CppCheckExecutor_def example_Settings_def
  example_Render_def example_Engine_def example_message_def locations_def example_PathOps_def
  example_Parser_def

lemmas model_defs = check_internal_def check_internal_dispatch_def check_internal_reports_def
  check_file_def cppcheck_check_def engine_call_def reportErr_msg_def reportErr_def
  reportStatus_eq status_line_def reportInfo_def libraries_loaded_def Let_def

lemmas handler_defs = CppcheckSignalHandler_def signal_switch_def signal_name_def
  listofsignals_def segv_code_def at_address_def getExceptionOutput_def Statics_initial_def
  print_stacktrace_def print_frame_def demangled_name_def ADDRESSDISPLAYLENGTH_def
  left_justified_def with_precision_def example_Runtime_def Let_def

lemma analysed_append: "analysed (xs @ ys) = analysed xs @ analysed ys"
  by (induction xs rule: analysed.induct) simp_all

lemma analysed_Check: "map fst L = map Check ps \<Longrightarrow> analysed L = ps"
proof (induction L arbitrary: ps)
  case Nil
  then show ?case by simp
next
  case (Cons x L)
  then obtain p ps' where ps: "ps = p # ps'" by (cases ps) auto
  with Cons.prems have "fst x = Check p" "map fst L = map Check ps'" by simp_all
  then show ?case using Cons.IH [of ps'] ps by (cases x) simp
qed

lemma after_code_example [simp]: "after_code example_Engine path \<longleftrightarrow> path = ''ui.qml''"
  by (simp add: after_code_def example_Engine_def)

lemma erase_loop_filter:
  "erase_loop p masks caseSensitive fs = filter (\<lambda>i. \<not> Match p masks caseSensitive (fst i)) fs"
  by (induction fs) simp_all

subsection \<open>The file set and the exclusion rules\<close>

text \<open>
  C1. Exclusion rules for paths with the extension \<open>.h\<close> or \<open>.hpp\<close> should be taken
  out of the active rules, so that the files they name stay in the file set, with one
  warning for all of them. The code warns once, and it takes the rules out of the local
  copy \<^verbatim>\<open>ignored\<close> only: what \<^verbatim>\<open>parseFromArgs\<close> leaves in \<^verbatim>\<open>_files\<close> is what the
  matcher over the whole of \<^verbatim>\<open>parser.GetIgnoredPaths()\<close> lets through, whatever the
  matcher and the extensions are. With the files \<open>foo.h\<close> and \<open>a.c\<close> and the one rule
  \<open>foo.h\<close> the loop empties the copy and sets \<^verbatim>\<open>warn\<close>, the warning is written, and
  \<open>foo.h\<close> is removed from the file set all the same.
\<close>

theorem header_rules_are_warned_about_and_still_applied:
  "files (snd (parseFromArgs_files p parser st))
     = filter (\<lambda>i. \<not> Match p (GetIgnoredPaths parser) (\<not> WIN32 p) (fst i)) (files st) \<and>
   ignored_loop example_PathOps [''foo.h''] [] False = ([], True) \<and>
   parseFromArgs example_Render example_Engine example_PathOps
       (example_Parser [''foo.h'', ''a.c''] [''foo.h'']) example_State
     = Inr (True, example_State\<lparr>files := [(''a.c'', 1)],
         cout := [''cppcheck: filename exclusion does not apply to header (.h and .hpp) files.'' @ endl,
                  ''cppcheck: Please use --suppress for ignoring results from the header files.'' @ endl]\<rparr>)"
proof -
  have 1: "files (snd (parseFromArgs_files p parser st))
     = filter (\<lambda>i. \<not> Match p (GetIgnoredPaths parser) (\<not> WIN32 p) (fst i)) (files st)"
    by (cases "files st = []")
      (simp_all add: parseFromArgs_files_def erase_loop_filter Let_def split: prod.split)
  have 2: "ignored_loop example_PathOps [''foo.h''] [] False = ([], True)"
    by (simp add: example_PathOps_def)
  have 3: "parseFromArgs example_Render example_Engine example_PathOps
       (example_Parser [''foo.h'', ''a.c''] [''foo.h'']) example_State
     = Inr (True, example_State\<lparr>files := [(''a.c'', 1)],
         cout := [''cppcheck: filename exclusion does not apply to header (.h and .hpp) files.'' @ endl,
                  ''cppcheck: Please use --suppress for ignoring results from the header files.'' @ endl]\<rparr>)"
    by (simp add: example_defs parseFromArgs_def parseFromArgs_files_def Let_def)
  show ?thesis by (intro conjI 1 2 3)
qed

subsection \<open>The exit status\<close>

text \<open>
  C2 as stated fails: with the exit code 0 configured (the driver passes
  \<^verbatim>\<open>settings._exitCode\<close> on as it is) a run that finds ten defects in its one file
  returns 0.
\<close>

theorem defects_found_yet_exit_status_zero:
  "check_internal example_Render example_Engine ''cppcheck'' 0
     (example_State\<lparr>files := [(''a.c'', 1)]\<rparr>)
   = Inr (0, example_State\<lparr>files := [(''a.c'', 1)],
              errorList := {''[a.c:3] Null pointer dereference''},
              cerr := [''[a.c:3] Null pointer dereference'' @ endl],
              engine := 1,
              calls := [(Check ''a.c'', 10), (CheckFunctionUsage, 0), (TooManyConfigsError, 0)]\<rparr>) \<and>
   sum_list (map snd [(Check ''a.c'', 10 :: unsigned_int), (CheckFunctionUsage, 0), (TooManyConfigsError, 0)]) \<noteq> 0"
  by (simp add: example_defs model_defs dec.simps)

text \<open>
  C2, amended. For every run that loads its configuration, the value returned is the
  configured exit code when the aggregate defect count is not zero, and zero when it is
  zero. The aggregate is the sum, in the 32 bits of \<^verbatim>\<open>returnValue\<close>, of the numbers that
  the calls of this run returned (\<open>L\<close> is the part of the log the run added). So the
  status is not zero exactly when the aggregate and the configured exit code are both not
  zero.
\<close>

theorem exit_status_is_exitCode_when_defects_were_found:
  assumes "libraries_loaded g argv0 (settings st)"
  shows "\<exists>status st' L. check_internal r g argv0 now st = Inr (status, st') \<and>
     calls st' = calls st @ L \<and>
     status = (if sum_list (map snd L) \<noteq> 0 then exitCode (settings st) else 0) \<and>
     (status \<noteq> 0 \<longleftrightarrow> sum_list (map snd L) \<noteq> 0 \<and> exitCode (settings st) \<noteq> 0)"
proof -
  obtain rv st3 st4 L where "check_internal_dispatch r g (with_header r now st) = Inr (rv, st3)"
    and "check_internal_reports r g st3 = Inr st4"
    and "grows r (with_header r now st) st3" and "grows r st3 st4"
    and c3: "calls st3 = calls st @ L" and rv: "rv = sum_list (map snd L)"
    and c4: "calls st4 = calls st3 @ (if checkConfiguration (settings st) then [] else [(TooManyConfigsError, 0)])"
    and ci: "check_internal r g argv0 now st
         = Inr (if rv \<noteq> 0 then exitCode (settings st) else 0, with_footer r st4)"
    using assms by (rule check_internal_run)
  let ?L = "L @ (if checkConfiguration (settings st) then [] else [(TooManyConfigsError, 0)])"
  let ?status = "if rv \<noteq> 0 then exitCode (settings st) else 0"
  have s: "sum_list (map snd ?L) = rv" using rv by simp
  have 1: "calls (with_footer r st4) = calls st @ ?L" using c3 c4 by simp
  have 2: "?status = (if sum_list (map snd ?L) \<noteq> 0 then exitCode (settings st) else 0)"
    unfolding s by simp
  have 3: "?status \<noteq> 0 \<longleftrightarrow> sum_list (map snd ?L) \<noteq> 0 \<and> exitCode (settings st) \<noteq> 0"
    unfolding s by simp
  show ?thesis using ci 1 2 3 by blast
qed

theorem exit_status_is_exitCode_when_defects_were_found_witness:
  "libraries_loaded example_Engine ''cppcheck'' (settings example_one_file) \<and>
   (\<exists>status st' L. check_internal example_Render example_Engine ''cppcheck'' 0 example_one_file
          = Inr (status, st') \<and>
      calls st' = calls example_one_file @ L \<and>
      status = (if sum_list (map snd L) \<noteq> 0 then exitCode (settings example_one_file) else 0) \<and>
      (status \<noteq> 0 \<longleftrightarrow> sum_list (map snd L) \<noteq> 0 \<and> exitCode (settings example_one_file) \<noteq> 0)) \<and>
   check_internal example_Render example_Engine ''cppcheck'' 0 example_one_file
     = Inr (2, example_one_file\<lparr>errorList := {''[a.c:3] Null pointer dereference''},
              cerr := [''[a.c:3] Null pointer dereference'' @ endl],
              engine := 1,
              calls := [(Check ''a.c'', 10), (CheckFunctionUsage, 0), (TooManyConfigsError, 0)]\<rparr>)"
proof -
  have h: "libraries_loaded example_Engine ''cppcheck'' (settings example_one_file)"
    by (simp add: libraries_loaded_def example_Engine_def)
  have v: "check_internal example_Render example_Engine ''cppcheck'' 0 example_one_file
    = Inr (2, example_one_file\<lparr>errorList := {''[a.c:3] Null pointer dereference''},
              cerr := [''[a.c:3] Null pointer dereference'' @ endl],
              engine := 1,
              calls := [(Check ''a.c'', 10), (CheckFunctionUsage, 0), (TooManyConfigsError, 0)]\<rparr>)"
    by (simp add: example_one_file_def example_defs model_defs dec.simps)
  show ?thesis
    using h v exit_status_is_exitCode_when_defects_were_found [OF h, of example_Render 0]
    by (intro conjI)
qed

subsection \<open>The call-stack printer\<close>

text \<open>
  C3. For a fault that is not an interrupt the handler should rebuild the call stack: at
  most 32 return addresses, the three innermost frames skipped, each name demangled where
  that works and the raw line printed where it does not. The handler does call
  \<^verbatim>\<open>print_stacktrace\<close>, but the body of that function stands under
  \<^verbatim>\<open>#if defined(USE_UNIX_SIGNAL_SUPPORT)\<close>, a macro that the file never defines (it
  defines \<^verbatim>\<open>USE_UNIX_SIGNAL_HANDLING\<close>): without the macro nothing is captured and
  nothing is written, for every runtime. On a segmentation fault with five frames on the
  stack the report goes from the line of the signal straight to the closing request; with
  the macro defined the same input gives the two frames that remain after the three
  skipped ones.
\<close>

theorem call_stack_printer_is_compiled_out:
  "print_stacktrace (rt\<lparr>USE_UNIX_SIGNAL_SUPPORT := False\<rparr>) demangling = Inr [] \<and>
   USE_UNIX_SIGNAL_SUPPORT example_Runtime = False \<and>
   return_addresses example_Runtime = [1, 2, 3, 4, 5] \<and>
   CppcheckSignalHandler example_Runtime Statics_initial 11 \<lparr>si_code = 1, si_addr = 0\<rparr>
     = \<lparr>stream = stdout,
        written = [''Internal error: cppcheck received signal '', ''SIGSEGV'', '', '',
                   ''Segmentation fault'', '' - SEGV_MAPERR'', '' (at 0x(nil)).'' @ [CHR 0x0A],
                   [CHR 0x0A] @ ''Please report this to the cppcheck developers!'' @ [CHR 0x0A]],
        ending = Aborted\<rparr> \<and>
   CppcheckSignalHandler (example_Runtime\<lparr>USE_UNIX_SIGNAL_SUPPORT := True\<rparr>) Statics_initial 11
       \<lparr>si_code = 1, si_addr = 0\<rparr>
     = \<lparr>stream = stdout,
        written = [''Internal error: cppcheck received signal '', ''SIGSEGV'', '', '',
                   ''Segmentation fault'', '' - SEGV_MAPERR'', '' (at 0x(nil)).'' @ [CHR 0x0A],
                   ''Callstack:'' @ [CHR 0x0A],
                   ''#0  0x'', replicate 6 CHR ''0'',
                   ''4a3b2c in ./cppcheck(_ZN8CppCheck5checkERKSs+0x1a) '' @ [CHR 0x0A],
                   ''#1  0x'', replicate 6 CHR ''0'',
                   ''4a3b2c in ./cppcheck(_ZN8CppCheck5checkERKSs+0x1a) '' @ [CHR 0x0A],
                   [CHR 0x0A] @ ''Please report this to the cppcheck developers!'' @ [CHR 0x0A]],
        ending = Aborted\<rparr>"
proof -
  have 1: "print_stacktrace (rt\<lparr>USE_UNIX_SIGNAL_SUPPORT := False\<rparr>) demangling = Inr []"
    by (simp add: print_stacktrace_def)
  have 2: "USE_UNIX_SIGNAL_SUPPORT example_Runtime = False"
    "return_addresses example_Runtime = [1, 2, 3, 4, 5]"
    by (simp_all add: example_Runtime_def)
  have 3: "CppcheckSignalHandler example_Runtime Statics_initial 11 \<lparr>si_code = 1, si_addr = 0\<rparr>
     = \<lparr>stream = stdout,
        written = [''Internal error: cppcheck received signal '', ''SIGSEGV'', '', '',
                   ''Segmentation fault'', '' - SEGV_MAPERR'', '' (at 0x(nil)).'' @ [CHR 0x0A],
                   [CHR 0x0A] @ ''Please report this to the cppcheck developers!'' @ [CHR 0x0A]],
        ending = Aborted\<rparr>"
    by (simp add: handler_defs)
  have 4: "CppcheckSignalHandler (example_Runtime\<lparr>USE_UNIX_SIGNAL_SUPPORT := True\<rparr>) Statics_initial 11
       \<lparr>si_code = 1, si_addr = 0\<rparr>
     = \<lparr>stream = stdout,
        written = [''Internal error: cppcheck received signal '', ''SIGSEGV'', '', '',
                   ''Segmentation fault'', '' - SEGV_MAPERR'', '' (at 0x(nil)).'' @ [CHR 0x0A],
                   ''Callstack:'' @ [CHR 0x0A],
                   ''#0  0x'', replicate 6 CHR ''0'',
                   ''4a3b2c in ./cppcheck(_ZN8CppCheck5checkERKSs+0x1a) '' @ [CHR 0x0A],
                   ''#1  0x'', replicate 6 CHR ''0'',
                   ''4a3b2c in ./cppcheck(_ZN8CppCheck5checkERKSs+0x1a) '' @ [CHR 0x0A],
                   [CHR 0x0A] @ ''Please report this to the cppcheck developers!'' @ [CHR 0x0A]],
        ending = Aborted\<rparr>"
    by (simp add: handler_defs dec.simps)
  show ?thesis by (intro conjI 1 2 3 4)
qed

subsection \<open>The order of the files in sequential mode\<close>

text \<open>
  C4 as stated fails where it speaks of insertion order: \<^verbatim>\<open>_files\<close> is a
  \<^verbatim>\<open>std::map\<close>, which forgets the order of insertion. With \<open>b.c\<close> given before
  \<open>a.c\<close> on the command line the map is filled in that order and iterated in the order
  of the keys: \<open>a.c\<close> is checked first.
\<close>

theorem files_named_b_then_a_are_checked_a_then_b:
  "GetPathNames (example_Parser [''b.c'', ''a.c''] []) = [''b.c'', ''a.c''] \<and>
   recursiveAddFiles_loop example_PathOps [''b.c'', ''a.c''] [] = [(''a.c'', 1), (''b.c'', 1)] \<and>
   check example_Render example_Engine example_PathOps (example_Parser [''b.c'', ''a.c''] [])
       ''cppcheck'' 0 example_State
     = Inr (0, example_State\<lparr>files := [(''a.c'', 1), (''b.c'', 1)],
                errorList := {''[a.c:3] Null pointer dereference''},
                cout := [''1/2 files checked 50% done'' @ endl, ''2/2 files checked 100% done'' @ endl],
                cerr := [''[a.c:3] Null pointer dereference'' @ endl],
                engine := 2,
                calls := [(Check ''a.c'', 10), (Check ''b.c'', 0), (CheckFunctionUsage, 0),
                          (TooManyConfigsError, 0)]\<rparr>) \<and>
   analysed [(Check ''a.c'', 10), (Check ''b.c'', 0), (CheckFunctionUsage, 0), (TooManyConfigsError, 0)]
     = [''a.c'', ''b.c'']"
  by (simp add: example_defs model_defs dec.simps check_def parseFromArgs_def
      parseFromArgs_files_def dec_int_def)

text \<open>
  C4, amended. For every file set processed with one job (the configuration loaded), the
  calls of the engine are: \<^verbatim>\<open>check\<close> for every file that is not a markup file asking to
  be processed after the code, then \<^verbatim>\<open>check\<close> for every markup file that asks for it,
  within each pass in the order in which the map iterates (ascending paths, not the order
  of insertion), then \<^verbatim>\<open>checkFunctionUsage\<close> once (and after it
  \<^verbatim>\<open>tooManyConfigsError\<close> unless the configuration is being checked). The files
  analysed are the files of the set, each once when the paths are distinct, as the keys of
  a map are.
\<close>

theorem sequential_mode_runs_two_passes_in_map_order:
  assumes "jobs (settings st) = 1" "libraries_loaded g argv0 (settings st)"
  shows "\<exists>status st' L. check_internal r g argv0 now st = Inr (status, st') \<and>
     calls st' = calls st @ L \<and>
     map fst L = map Check (filter (\<lambda>path. \<not> after_code g path) (map fst (files st))
                             @ filter (after_code g) (map fst (files st)))
                   @ [CheckFunctionUsage]
                   @ (if checkConfiguration (settings st) then [] else [TooManyConfigsError]) \<and>
     analysed L = filter (\<lambda>path. \<not> after_code g path) (map fst (files st))
                    @ filter (after_code g) (map fst (files st)) \<and>
     set (analysed L) = set (map fst (files st)) \<and>
     (distinct (map fst (files st)) \<longrightarrow> distinct (analysed L))"
proof -
  let ?h = "with_header r now st"
  let ?ps = "map fst (files st)"
  let ?order = "filter (\<lambda>path. \<not> after_code g path) ?ps @ filter (after_code g) ?ps"
  let ?tail = "if checkConfiguration (settings st) then [] else [(TooManyConfigsError, 0 :: unsigned_int)]"
  obtain rv st3 st4 L0 where d: "check_internal_dispatch r g ?h = Inr (rv, st3)"
    and "check_internal_reports r g st3 = Inr st4"
    and "grows r ?h st3" and "grows r st3 st4"
    and c3: "calls st3 = calls st @ L0" and "rv = sum_list (map snd L0)"
    and c4: "calls st4 = calls st3 @ ?tail"
    and ci: "check_internal r g argv0 now st
         = Inr (if rv \<noteq> 0 then exitCode (settings st) else 0, with_footer r st4)"
    using assms(2) by (rule check_internal_run)
  have j: "jobs (settings ?h) = 1" using assms(1) by simp
  obtain rv' st3' L where d': "check_internal_dispatch r g ?h = Inr (rv', st3')"
    and c3': "calls st3' = calls ?h @ L"
    and m: "map fst L = map Check (filter (\<lambda>p. \<not> after_code g p) (map fst (files ?h))
                               @ filter (after_code g) (map fst (files ?h))) @ [CheckFunctionUsage]"
    using dispatch_sequential [OF j, of r g] by blast
  have "st3' = st3" using d d' by simp
  then have "calls st @ L0 = calls st @ L" using c3 c3' by simp
  then have L0: "L0 = L" by simp
  have m': "map fst L = map Check ?order @ [CheckFunctionUsage]" using m by simp
  obtain Lc x where L: "L = Lc @ [x]" "map fst Lc = map Check ?order" "fst x = CheckFunctionUsage"
  proof -
    from m' have "L \<noteq> []" by auto
    then have e: "L = butlast L @ [last L]" by simp
    with m' have "map fst (butlast L) @ [fst (last L)] = map Check ?order @ [CheckFunctionUsage]"
      by (metis list.simps(8,9) map_append)
    then have "map fst (butlast L) = map Check ?order" "fst (last L) = CheckFunctionUsage"
      by simp_all
    with e show thesis using that by blast
  qed
  have a1: "analysed Lc = ?order" using L(2) by (rule analysed_Check)
  have a2: "analysed [x] = []"
  proof (cases x)
    case (Pair c n)
    with L(3) have "c = CheckFunctionUsage" by simp
    with Pair show ?thesis by simp
  qed
  have a3: "analysed ?tail = []" by simp
  have "analysed (L @ ?tail) = analysed Lc @ analysed [x] @ analysed ?tail"
    unfolding L(1) by (simp only: analysed_append append_assoc)
  then have an: "analysed (L @ ?tail) = ?order"
    by (simp only: a1 a2 a3 append_Nil2)
  have 1: "calls (with_footer r st4) = calls st @ (L @ ?tail)" using c3 c4 L0 by simp
  have 2: "map fst (L @ ?tail) = map Check ?order @ [CheckFunctionUsage]
             @ (if checkConfiguration (settings st) then [] else [TooManyConfigsError])"
    using m' by simp
  have 3: "set (analysed (L @ ?tail)) = set ?ps" unfolding an by auto
  have 4: "distinct ?ps \<longrightarrow> distinct (analysed (L @ ?tail))" unfolding an by auto
  show ?thesis using ci 1 2 an 3 4 by blast
qed

theorem sequential_mode_runs_two_passes_in_map_order_witness:
  "jobs (settings example_xml_run) = 1 \<and>
   libraries_loaded example_Engine ''cppcheck'' (settings example_xml_run) \<and>
   distinct (map fst (files example_xml_run)) \<and>
   (\<exists>status st' L. check_internal example_Render example_Engine ''cppcheck'' 0 example_xml_run
          = Inr (status, st') \<and>
      calls st' = calls example_xml_run @ L \<and>
      map fst L = map Check [''a.c'', ''b.c'', ''z.c'', ''ui.qml''] @ [CheckFunctionUsage, TooManyConfigsError] \<and>
      analysed L = [''a.c'', ''b.c'', ''z.c'', ''ui.qml''] \<and>
      set (analysed L) = set (map fst (files example_xml_run)) \<and>
      distinct (analysed L))"
proof -
  have j: "jobs (settings example_xml_run) = 1"
    by (simp add: example_xml_run_def example_Settings_def)
  have h: "libraries_loaded example_Engine ''cppcheck'' (settings example_xml_run)"
    by (simp add: libraries_loaded_def example_Engine_def)
  have f: "map fst (files example_xml_run) = [''a.c'', ''b.c'', ''ui.qml'', ''z.c'']"
    by (simp add: example_xml_run_def)
  have c: "\<not> checkConfiguration (settings example_xml_run)"
    by (simp add: example_xml_run_def example_Settings_def)
  have d: "distinct (map fst (files example_xml_run))" unfolding f by simp
  from sequential_mode_runs_two_passes_in_map_order [OF j h, of example_Render 0]
  obtain status st' L where 1:
    "check_internal example_Render example_Engine ''cppcheck'' 0 example_xml_run = Inr (status, st')"
    "calls st' = calls example_xml_run @ L"
    "map fst L = map Check (filter (\<lambda>path. \<not> after_code example_Engine path) (map fst (files example_xml_run))
                             @ filter (after_code example_Engine) (map fst (files example_xml_run)))
                   @ [CheckFunctionUsage]
                   @ (if checkConfiguration (settings example_xml_run) then [] else [TooManyConfigsError])"
    "analysed L = filter (\<lambda>path. \<not> after_code example_Engine path) (map fst (files example_xml_run))
                    @ filter (after_code example_Engine) (map fst (files example_xml_run))"
    "set (analysed L) = set (map fst (files example_xml_run))"
    "distinct (map fst (files example_xml_run)) \<longrightarrow> distinct (analysed L)"
    by blast
  have 3: "map fst L = map Check [''a.c'', ''b.c'', ''z.c'', ''ui.qml''] @ [CheckFunctionUsage, TooManyConfigsError]"
    using 1(3) c unfolding f by simp
  have 4: "analysed L = [''a.c'', ''b.c'', ''z.c'', ''ui.qml'']"
    using 1(4) unfolding f by simp
  have 6: "distinct (analysed L)" using 1(6) d by simp
  show ?thesis using j h d 1(1,2) 3 4 1(5) 6 by blast
qed

subsection \<open>The informational channel\<close>

text \<open>
  C6 as stated fails for informational reports: \<^verbatim>\<open>reportInfo\<close> hands its message to
  \<^verbatim>\<open>reportErr\<close>, which consults \<^verbatim>\<open>_errorList\<close>. The same report twice is written
  once, on the error stream, and nothing reaches the output stream.
\<close>

theorem reportInfo_twice_writes_once:
  "cerr (reportInfo example_Render (example_message ''a.c'' 3)
          (reportInfo example_Render (example_message ''a.c'' 3) example_State))
     = [''[a.c:3] Null pointer dereference'' @ endl] \<and>
   cout (reportInfo example_Render (example_message ''a.c'' 3)
          (reportInfo example_Render (example_message ''a.c'' 3) example_State)) = []"
  by (simp add: reportInfo_def reportErr_msg_def reportErr_def example_State_def
      CppCheckExecutor_def example_Settings_def example_Render_def example_message_def
      locations_def dec.simps)

text \<open>
  C6, amended. Every message written by \<^verbatim>\<open>reportOut\<close> (the progress lines of
  \<^verbatim>\<open>reportProgress\<close> among them) and every status line of \<^verbatim>\<open>reportStatus\<close> is
  written without consulting \<^verbatim>\<open>_errorList\<close>: the same text twice gives two writes, and
  \<^verbatim>\<open>_errorList\<close> and the error stream stay as they are. \<^verbatim>\<open>reportInfo\<close> is not on
  that channel: it is \<^verbatim>\<open>reportErr\<close> of the message, and so deduplicated like a
  diagnostic.
\<close>

theorem reportOut_and_reportStatus_never_consult_errorList:
  "cout (reportOut outmsg st) = cout st @ [outmsg @ endl] \<and>
   cout (reportOut outmsg (reportOut outmsg st)) = cout st @ [outmsg @ endl, outmsg @ endl] \<and>
   errorList (reportOut outmsg st) = errorList st \<and> cerr (reportOut outmsg st) = cerr st \<and>
   reportStatus r fileindex filecount sizedone sizetotal st
     = Inr (if 1 < filecount
            then st\<lparr>cout := cout st @ [status_line r fileindex filecount sizedone sizetotal]\<rparr>
            else st) \<and>
   reportProgress filename stage val time2 st
     = (if time1 st \<noteq> 0 \<and> time1 st + 10 \<le> time2
        then reportOut (''progress: '' @ stage @ '' '' @ dec (unat val) @ ''%'') (st\<lparr>time1 := time2\<rparr>)
        else st) \<and>
   reportInfo r m st = reportErr_msg r m st"
  by (simp add: reportOut_def reportStatus_eq reportProgress_def reportInfo_def)

subsection \<open>Header and footer of the structured mode\<close>

text \<open>
  C7 as stated fails for a run that passes the validation of its input and then cannot
  load \<open>std.cfg\<close>: \<^verbatim>\<open>parseFromArgs\<close> accepts the one file, \<^verbatim>\<open>check_internal\<close>
  reports the failure through \<^verbatim>\<open>reportErr\<close> and returns \<^verbatim>\<open>EXIT_FAILURE\<close> in line 602,
  before the header of line 609. In structured mode the error stream then holds one
  rendered diagnostic and neither header nor footer.
\<close>

theorem xml_run_without_configuration_has_no_header:
  "parseFromArgs example_Render example_Engine_without_cfg example_PathOps
       (example_Parser [''a.c''] []) example_xml_driver
     = Inr (True, example_xml_driver\<lparr>files := [(''a.c'', 1)]\<rparr>) \<and>
   check example_Render example_Engine_without_cfg example_PathOps
       (example_Parser [''a.c''] []) ''cppcheck'' 0 example_xml_driver
     = Inr (1, example_xml_driver
                 \<lparr>files := [(''a.c'', 1)],
                  errorList := {''<error id=failedToLoadCfg at=/>''},
                  cerr := [''<error id=failedToLoadCfg at=/>'' @ endl]\<rparr>) \<and>
   xml (settings example_xml_driver) \<and>
   getXMLHeader example_Render 1 = ''<results>'' \<and> getXMLFooter example_Render 1 = ''</results>'' \<and>
   ''<results>'' @ endl \<notin> set [''<error id=failedToLoadCfg at=/>'' @ endl] \<and>
   ''</results>'' @ endl \<notin> set [''<error id=failedToLoadCfg at=/>'' @ endl]"
  by (simp add: example_Engine_without_cfg_def example_xml_driver_def example_defs model_defs
      check_def parseFromArgs_def parseFromArgs_files_def failedToLoadCfg_message_def
      EXIT_FAILURE_def)

text \<open>
  C7, amended. For every run in structured mode that passes the validation of its input
  and loads its configuration files (\<open>std.cfg\<close>, and \<open>posix.cfg\<close> when the POSIX
  standard is set), entering \<^verbatim>\<open>check_internal\<close> with nothing written on the error stream
  and an empty \<^verbatim>\<open>_errorList\<close> (as every run does that starts from the constructor, since
  reading the arguments writes nothing there), the error stream is the header, then
  rendered diagnostics, then the footer; header and footer each stand there exactly once,
  also when no diagnostic lies between them. The renderers are parameters: the header
  differs from the footer, and no diagnostic renders to the text of the footer (the footer
  goes through the same deduplication as the diagnostics).
\<close>

theorem xml_run_is_bracketed_by_header_and_footer:
  assumes "xml (settings st)" "cerr st = []" "errorList st = {}"
    "libraries_loaded g argv0 (settings st)"
    "getXMLHeader r (xml_version (settings st)) \<noteq> getXMLFooter r (xml_version (settings st))"
    "\<forall>m. toXML r (verbose (settings st)) (xml_version (settings st)) m
           \<noteq> getXMLFooter r (xml_version (settings st))"
  shows "\<exists>status st' ws. check_internal r g argv0 now st = Inr (status, st') \<and>
     cerr st' = [getXMLHeader r (xml_version (settings st)) @ endl]
                 @ map (\<lambda>s. s @ endl) ws
                 @ [getXMLFooter r (xml_version (settings st)) @ endl] \<and>
     distinct ws \<and>
     getXMLHeader r (xml_version (settings st)) \<notin> set ws \<and>
     getXMLFooter r (xml_version (settings st)) \<notin> set ws \<and>
     set ws \<subseteq> range (toXML r (verbose (settings st)) (xml_version (settings st))) \<and>
     count_list (cerr st') (getXMLHeader r (xml_version (settings st)) @ endl) = 1 \<and>
     count_list (cerr st') (getXMLFooter r (xml_version (settings st)) @ endl) = 1"
proof -
  let ?h = "with_header r now st"
  let ?H = "getXMLHeader r (xml_version (settings st))"
  let ?F = "getXMLFooter r (xml_version (settings st))"
  obtain rv st3 st4 L where "check_internal_dispatch r g ?h = Inr (rv, st3)"
    and "check_internal_reports r g st3 = Inr st4"
    and g1: "grows r ?h st3" and g2: "grows r st3 st4"
    and "calls st3 = calls st @ L" "rv = sum_list (map snd L)"
    and "calls st4 = calls st3 @ (if checkConfiguration (settings st) then [] else [(TooManyConfigsError, 0)])"
    and ci: "check_internal r g argv0 now st
         = Inr (if rv \<noteq> 0 then exitCode (settings st) else 0, with_footer r st4)"
    using assms(4) by (rule check_internal_run)
  have h1: "cerr ?h = [?H @ endl]" and h2: "errorList ?h = {?H}"
    using assms(1-3) by (simp_all add: with_header_def Let_def reportErr_def)
  have "grows r ?h st4" using g1 g2 by (rule grows_trans)
  then obtain ws os where s4: "settings st4 = settings ?h"
    and c: "cerr st4 = cerr ?h @ map (\<lambda>s. s @ endl) ws" and d: "distinct ws"
    and n: "set ws \<inter> errorList ?h = {}" and e: "errorList st4 = errorList ?h \<union> set ws"
    and sub: "set ws \<subseteq> rendered r ?h"
    by (rule growsE)
  have r1: "rendered r ?h \<subseteq> range (toXML r (verbose (settings st)) (xml_version (settings st)))"
    using assms(1) by (simp add: rendered_def)
  have sub': "set ws \<subseteq> range (toXML r (verbose (settings st)) (xml_version (settings st)))"
    using sub r1 by blast
  have Fws: "?F \<notin> set ws"
  proof
    assume "?F \<in> set ws"
    with sub' have "?F \<in> range (toXML r (verbose (settings st)) (xml_version (settings st)))" by (rule subsetD)
    then obtain m where "?F = toXML r (verbose (settings st)) (xml_version (settings st)) m" by (rule rangeE)
    with assms(6) show False by metis
  qed
  have Hws: "?H \<notin> set ws" using n h2 by auto
  have "?F \<notin> errorList st4" using e h2 Fws assms(5) by auto
  then have f: "cerr (with_footer r st4) = cerr st4 @ [?F @ endl]"
    using assms(1) s4 by (simp add: with_footer_def reportErr_def)
  have 1: "cerr (with_footer r st4) = [?H @ endl] @ map (\<lambda>s. s @ endl) ws @ [?F @ endl]"
    using f c h1 by simp
  have cnt: "count_list (map (\<lambda>s. s @ endl) ws) (x @ endl) = 0" if "x \<notin> set ws" for x
    using that by (simp add: count_list_0_iff image_iff)
  have 2: "count_list (cerr (with_footer r st4)) (?H @ endl) = 1"
    unfolding 1 using cnt [OF Hws] assms(5) by simp
  have 3: "count_list (cerr (with_footer r st4)) (?F @ endl) = 1"
    unfolding 1 using cnt [OF Fws] assms(5) by simp
  show ?thesis using ci 1 d Hws Fws sub' 2 3 by blast
qed

theorem xml_run_is_bracketed_by_header_and_footer_witness:
  "xml (settings example_xml_run) \<and> cerr example_xml_run = [] \<and> errorList example_xml_run = {} \<and>
   libraries_loaded example_Engine ''cppcheck'' (settings example_xml_run) \<and>
   getXMLHeader example_Render (xml_version (settings example_xml_run))
     \<noteq> getXMLFooter example_Render (xml_version (settings example_xml_run)) \<and>
   (\<forall>m. toXML example_Render (verbose (settings example_xml_run))
          (xml_version (settings example_xml_run)) m
        \<noteq> getXMLFooter example_Render (xml_version (settings example_xml_run))) \<and>
   (\<exists>status st' ws. check_internal example_Render example_Engine ''cppcheck'' 0 example_xml_run
          = Inr (status, st') \<and>
      cerr st' = [''<results>'' @ endl] @ map (\<lambda>s. s @ endl) ws @ [''</results>'' @ endl] \<and>
      distinct ws \<and> ''<results>'' \<notin> set ws \<and> ''</results>'' \<notin> set ws \<and>
      count_list (cerr st') (''<results>'' @ endl) = 1 \<and>
      count_list (cerr st') (''</results>'' @ endl) = 1) \<and>
   (\<exists>status st'. check_internal example_Render example_Engine ''cppcheck'' 0 example_xml_run
          = Inr (status, st') \<and>
      cerr st' = [''<results>'' @ endl, ''<error id=nullPointer at=[a.c:3]/>'' @ endl,
                  ''</results>'' @ endl])"
proof -
  have x: "xml (settings example_xml_run)"
    by (simp add: example_xml_run_def example_Settings_def)
  have c: "cerr example_xml_run = []" and e: "errorList example_xml_run = {}"
    by (simp_all add: example_xml_run_def example_State_def CppCheckExecutor_def)
  have h: "libraries_loaded example_Engine ''cppcheck'' (settings example_xml_run)"
    by (simp add: libraries_loaded_def example_Engine_def)
  have H: "getXMLHeader example_Render (xml_version (settings example_xml_run)) = ''<results>''"
    and F: "getXMLFooter example_Render (xml_version (settings example_xml_run)) = ''</results>''"
    by (simp_all add: example_Render_def)
  have n: "getXMLHeader example_Render (xml_version (settings example_xml_run))
     \<noteq> getXMLFooter example_Render (xml_version (settings example_xml_run))"
    unfolding H F by simp
  have m: "\<forall>m. toXML example_Render (verbose (settings example_xml_run))
          (xml_version (settings example_xml_run)) m
        \<noteq> getXMLFooter example_Render (xml_version (settings example_xml_run))"
    unfolding F by (simp add: example_Render_def)
  have v: "\<exists>status st'. check_internal example_Render example_Engine ''cppcheck'' 0 example_xml_run
          = Inr (status, st') \<and>
      cerr st' = [''<results>'' @ endl, ''<error id=nullPointer at=[a.c:3]/>'' @ endl,
                  ''</results>'' @ endl]"
    by (simp add: example_xml_run_def example_defs model_defs dec.simps dec_int_def)
  from xml_run_is_bracketed_by_header_and_footer [OF x c e h n m, of 0]
  have t: "\<exists>status st' ws. check_internal example_Render example_Engine ''cppcheck'' 0 example_xml_run
          = Inr (status, st') \<and>
      cerr st' = [''<results>'' @ endl] @ map (\<lambda>s. s @ endl) ws @ [''</results>'' @ endl] \<and>
      distinct ws \<and> ''<results>'' \<notin> set ws \<and> ''</results>'' \<notin> set ws \<and>
      count_list (cerr st') (''<results>'' @ endl) = 1 \<and>
      count_list (cerr st') (''</results>'' @ endl) = 1"
    unfolding H F by blast
  show ?thesis using x c e h n m t v by (intro conjI)
qed

subsection \<open>No thread support\<close>



subsection \<open>The destination of a fault report\<close>

text \<open>
  C9. The signal handler writes to \<^verbatim>\<open>stderr\<close> exactly when the static string
  \<^verbatim>\<open>exceptionOutput\<close> is \<open>stderr\<close>, and to \<^verbatim>\<open>stdout\<close> in every other case; the
  string is empty until \<^verbatim>\<open>setExceptionOutput\<close> is called, so the handler then writes to
  \<^verbatim>\<open>stdout\<close>; \<^verbatim>\<open>getExceptionOutput\<close> returns what was set last.
\<close>

theorem fault_report_goes_to_stderr_iff_named:
  "stream (CppcheckSignalHandler rt statics signo info)
     = (if getExceptionOutput statics = ''stderr'' then stderr else stdout) \<and>
   (stream (CppcheckSignalHandler rt statics signo info) = stderr
      \<longleftrightarrow> getExceptionOutput statics = ''stderr'') \<and>
   getExceptionOutput Statics_initial = [] \<and>
   stream (CppcheckSignalHandler rt Statics_initial signo info) = stdout \<and>
   getExceptionOutput (setExceptionOutput fn statics) = fn \<and>
   stream (CppcheckSignalHandler rt (setExceptionOutput ''stderr'' statics) signo info) = stderr"
proof -
  have s: "stream (CppcheckSignalHandler rt x signo info)
     = (if getExceptionOutput x = ''stderr'' then stderr else stdout)" for x
    by (simp add: CppcheckSignalHandler_def Let_def split: prod.split sum.split)
  have i: "getExceptionOutput Statics_initial = []"
    by (simp add: getExceptionOutput_def Statics_initial_def)
  have g: "getExceptionOutput (setExceptionOutput fn x) = fn" for fn x
    by (simp add: getExceptionOutput_def setExceptionOutput_def)
  show ?thesis by (simp add: s i g)
qed

subsection \<open>The percentage of the status line\<close>

text \<open>
  C10. For every call of \<^verbatim>\<open>reportStatus\<close> with more than one file, the call succeeds
  and writes one line; the percentage in it is the quotient of \<^verbatim>\<open>sizedone\<close> and
  \<^verbatim>\<open>sizetotal\<close> times 100 when \<^verbatim>\<open>sizetotal\<close> is positive and 0 when it is zero. The
  division itself would fail on a zero \<^verbatim>\<open>sizetotal\<close>; \<^verbatim>\<open>reportStatus\<close> never gets
  there.
\<close>

theorem reportStatus_guards_the_division:
  "1 < filecount \<Longrightarrow>
     reportStatus r fileindex filecount sizedone sizetotal st
       = Inr (st\<lparr>cout := cout st @
           [dec (unat fileindex) @ ''/'' @ dec (unat filecount) @ '' files checked ''
              @ dec_int (if 0 < sizetotal then long_double_percent r sizedone sizetotal else 0)
              @ ''% done'' @ endl]\<rparr>) \<and>
     (0 < sizetotal \<longrightarrow> percent_of r sizedone sizetotal = Inr (long_double_percent r sizedone sizetotal)) \<and>
     (sizetotal = 0 \<longrightarrow> percent_of r sizedone sizetotal = Inl DivisionByZero)"
  by (simp add: reportStatus_def percent_of_def word_gt_0)

theorem reportStatus_guards_the_division_witness:
  "(1 :: size_t) < 2 \<and>
   reportStatus example_Render 1 2 0 0 example_State
     = Inr (example_State\<lparr>cout := [''1/2 files checked 0% done'' @ endl]\<rparr>) \<and>
   percent_of example_Render 0 0 = Inl DivisionByZero \<and>
   (0 :: size_t) < 20 \<and>
   reportStatus example_Render 1 2 10 20 example_State
     = Inr (example_State\<lparr>cout := [''1/2 files checked 50% done'' @ endl]\<rparr>) \<and>
   percent_of example_Render 10 20 = Inr 50"
proof -
  have a: "(1 :: size_t) < 2" by simp
  have b: "(0 :: size_t) < 20" by simp
  have c: "cout example_State = []" by (simp add: example_State_def CppCheckExecutor_def)
  have d: "dec 1 = ''1''" "dec 2 = ''2''" "dec 0 = ''0''" "dec 50 = ''50''"
    by (simp_all add: dec.simps)
  have e: "long_double_percent example_Render 10 20 = 50" by (simp add: example_Render_def)
  note A = reportStatus_guards_the_division [OF a, of example_Render 1 0 0 example_State]
  note B = reportStatus_guards_the_division [OF a, of example_Render 1 10 20 example_State]
  show ?thesis using A B a b c d e by (simp add: dec_int_def)
qed

end
